theory Spec2Isabelle
  imports Complex_Main "HOL-Library.Sublist"
begin

section \<open>JavaScript values used by server.js\<close>

text \<open>
  A JavaScript number is a double: not-a-number, an infinity, or a finite value, kept
  here as the rational it denotes (the sign of zero plays no part in this program).
  The other values are the ones JSON can carry, together with \<open>undefined\<close>.
  An object is the list of its own properties in enumeration order, one entry per key.
  A string is the list of the bytes of its UTF-8 text.
\<close>

datatype jsnum = NaN | PosInf | NegInf | Finite rat

datatype jsval =
    JUndefined
  | JNull
  | JBool bool
  | JNum jsnum
  | JStr string
  | JArr "jsval list"
  | JObj "(string \<times> jsval) list"

text \<open>
  A thrown value: the error's name (\<open>Error\<close>, \<open>TypeError\<close>), its message, and the
  \<open>status\<close> and \<open>body\<close> properties that \<open>imlFetch\<close> adds to the errors it throws.
\<close>

datatype js_error = JsError (ename: string) (message: string) (detail: "(nat \<times> jsval) option")

text \<open>Truthiness (\<open>!v\<close>, \<open>v ? a : b\<close>, \<open>a || b\<close>) and nullishness (\<open>a ?? b\<close>, \<open>a?.k\<close>).\<close>

fun truthy :: "jsval \<Rightarrow> bool" where
  "truthy JUndefined = False"
| "truthy JNull = False"
| "truthy (JBool b) = b"
| "truthy (JNum n) = (n \<noteq> NaN \<and> n \<noteq> Finite 0)"
| "truthy (JStr s) = (s \<noteq> [])"
| "truthy (JArr vs) = True"
| "truthy (JObj kvs) = True"

fun nullish :: "jsval \<Rightarrow> bool" where
  "nullish JUndefined = True"
| "nullish JNull = True"
| "nullish v = False"

definition coalesce :: "jsval \<Rightarrow> jsval \<Rightarrow> jsval" where
  "coalesce a b = (if nullish a then b else a)"

text \<open>
  Reading a property \<open>v.k\<close> of a value that is not nullish, for the keys the program
  reads (none of which is a property of a prototype): an object gives its own property,
  anything else gives \<open>undefined\<close>.
\<close>

fun get_prop :: "jsval \<Rightarrow> string \<Rightarrow> jsval" where
  "get_prop (JObj kvs) k = (case map_of kvs k of Some v \<Rightarrow> v | None \<Rightarrow> JUndefined)"
| "get_prop v k = JUndefined"

text \<open>Optional chaining \<open>v?.k\<close>.\<close>

definition opt_prop :: "jsval \<Rightarrow> string \<Rightarrow> jsval" where
  "opt_prop v k = (if nullish v then JUndefined else get_prop v k)"

section \<open>Runtime functions\<close>

subsection \<open>Printing a status code\<close>

definition digit_char :: "nat \<Rightarrow> char" where
  "digit_char d = ''0123456789'' ! d"

fun nat_to_string :: "nat \<Rightarrow> string" where
  "nat_to_string n =
     (if n < 10 then [digit_char n] else nat_to_string (n div 10) @ [digit_char (n mod 10)])"

declare nat_to_string.simps [simp del]

subsection \<open>Rounding to a double\<close>

fun bitlen :: "nat \<Rightarrow> nat" where
  "bitlen n = (if n = 0 then 0 else Suc (bitlen (n div 2)))"

declare bitlen.simps [simp del]

definition pow2 :: "int \<Rightarrow> rat" where
  "pow2 k = (if 0 \<le> k then 2 ^ nat k else 1 / 2 ^ nat (- k))"

text \<open>\<open>ilog2 a\<close> is the floor of the binary logarithm of a positive rational.\<close>

definition ilog2 :: "rat \<Rightarrow> int" where
  "ilog2 a =
     (if 1 \<le> a then int (bitlen (nat \<lfloor>a\<rfloor>)) - 1
      else - int (bitlen (nat (\<lceil>1 / a\<rceil> - 1))))"

definition round_half_even :: "rat \<Rightarrow> int" where
  "round_half_even r =
     (let f = \<lfloor>r\<rfloor>; d = r - of_int f
      in if d < 1 / 2 then f
         else if 1 / 2 < d then f + 1
         else if even f then f else f + 1)"

text \<open>
  Round to nearest, ties to even, with 53 significant bits, gradual underflow below
  \<open>2 ^ -1022\<close> and overflow to an infinity from \<open>2 ^ 1024\<close> on.
\<close>

definition dbl_round :: "rat \<Rightarrow> jsnum" where
  "dbl_round x =
     (if x = 0 then Finite 0
      else
        let a = \<bar>x\<bar>;
            q = pow2 (max (ilog2 a) (- 1022) - 52);
            r = of_int (round_half_even (a / q)) * q
        in if 2 ^ 1024 \<le> r then (if 0 < x then PosInf else NegInf)
           else Finite (if 0 < x then r else - r))"

subsection \<open>\<open>Number(string)\<close> and \<open>Number.isFinite\<close>\<close>

text \<open>The white space and line terminators that the conversion strips, as UTF-8.\<close>

definition ws_seqs :: "string list" where
  "ws_seqs =
     [[CHR 0x09], [CHR 0x0A], [CHR 0x0B], [CHR 0x0C], [CHR 0x0D], [CHR 0x20],
      [CHR 0xC2, CHR 0xA0],
      [CHR 0xE1, CHR 0x9A, CHR 0x80],
      [CHR 0xE2, CHR 0x80, CHR 0x80], [CHR 0xE2, CHR 0x80, CHR 0x81],
      [CHR 0xE2, CHR 0x80, CHR 0x82], [CHR 0xE2, CHR 0x80, CHR 0x83],
      [CHR 0xE2, CHR 0x80, CHR 0x84], [CHR 0xE2, CHR 0x80, CHR 0x85],
      [CHR 0xE2, CHR 0x80, CHR 0x86], [CHR 0xE2, CHR 0x80, CHR 0x87],
      [CHR 0xE2, CHR 0x80, CHR 0x88], [CHR 0xE2, CHR 0x80, CHR 0x89],
      [CHR 0xE2, CHR 0x80, CHR 0x8A],
      [CHR 0xE2, CHR 0x80, CHR 0xA8], [CHR 0xE2, CHR 0x80, CHR 0xA9],
      [CHR 0xE2, CHR 0x80, CHR 0xAF],
      [CHR 0xE2, CHR 0x81, CHR 0x9F],
      [CHR 0xE3, CHR 0x80, CHR 0x80],
      [CHR 0xEF, CHR 0xBB, CHR 0xBF]]"

text \<open>Drop leading occurrences of the given sequences; \<open>n\<close> bounds the number dropped.\<close>

fun drop_seqs :: "string list \<Rightarrow> nat \<Rightarrow> string \<Rightarrow> string" where
  "drop_seqs ps 0 s = s"
| "drop_seqs ps (Suc n) s =
     (case find (\<lambda>p. p \<noteq> [] \<and> prefix p s) ps of
        None \<Rightarrow> s
      | Some p \<Rightarrow> drop_seqs ps n (drop (length p) s))"

definition trim :: "string \<Rightarrow> string" where
  "trim s =
     (let t = drop_seqs ws_seqs (length s) s
      in rev (drop_seqs (map rev ws_seqs) (length t) (rev t)))"

definition is_digit :: "char \<Rightarrow> bool" where
  "is_digit c = (48 \<le> (of_char c :: nat) \<and> (of_char c :: nat) \<le> 57)"

text \<open>The value of a digit of a hexadecimal, octal or binary literal.\<close>

definition digit_of :: "char \<Rightarrow> nat option" where
  "digit_of c =
     (let n = (of_char c :: nat)
      in if 48 \<le> n \<and> n \<le> 57 then Some (n - 48)
         else if 65 \<le> n \<and> n \<le> 70 then Some (n - 55)
         else if 97 \<le> n \<and> n \<le> 102 then Some (n - 87)
         else None)"

definition in_base :: "nat \<Rightarrow> char \<Rightarrow> bool" where
  "in_base b c = (case digit_of c of None \<Rightarrow> False | Some d \<Rightarrow> d < b)"

definition digits_val :: "nat \<Rightarrow> string \<Rightarrow> nat" where
  "digits_val b cs = foldl (\<lambda>a c. a * b + (case digit_of c of None \<Rightarrow> 0 | Some d \<Rightarrow> d)) 0 cs"

definition pow10 :: "int \<Rightarrow> rat" where
  "pow10 k = (if 0 \<le> k then 10 ^ nat k else 1 / 10 ^ nat (- k))"

text \<open>The exponent part of a decimal literal, up to the end of the string.\<close>

definition unsigned_exp :: "string \<Rightarrow> int option" where
  "unsigned_exp ds = (if ds \<noteq> [] \<and> list_all is_digit ds then Some (int (digits_val 10 ds)) else None)"

fun exponent_part :: "string \<Rightarrow> int option" where
  "exponent_part [] = Some 0"
| "exponent_part (c # cs) =
     (if c = CHR ''e'' \<or> c = CHR ''E'' then
        (case cs of
           [] \<Rightarrow> None
         | d # ds \<Rightarrow>
             if d = CHR ''+'' then unsigned_exp ds
             else if d = CHR ''-'' then map_option uminus (unsigned_exp ds)
             else unsigned_exp cs)
      else None)"

text \<open>An unsigned decimal literal: \<open>12\<close>, \<open>12.\<close>, \<open>12.5\<close>, \<open>.5\<close>, each with an optional exponent.\<close>

definition unsigned_decimal :: "string \<Rightarrow> jsnum" where
  "unsigned_decimal s =
     (let ip = takeWhile is_digit s;
          r1 = dropWhile is_digit s;
          fp = (case r1 of [] \<Rightarrow> [] | c # t \<Rightarrow> if c = CHR ''.'' then takeWhile is_digit t else []);
          r2 = (case r1 of [] \<Rightarrow> [] | c # t \<Rightarrow> if c = CHR ''.'' then dropWhile is_digit t else r1)
      in if ip = [] \<and> fp = [] then NaN
         else case exponent_part r2 of
                None \<Rightarrow> NaN
              | Some e \<Rightarrow> dbl_round (of_nat (digits_val 10 (ip @ fp)) * pow10 (e - int (length fp))))"

definition unsigned_literal :: "string \<Rightarrow> jsnum" where
  "unsigned_literal s = (if s = ''Infinity'' then PosInf else unsigned_decimal s)"

fun negate :: "jsnum \<Rightarrow> jsnum" where
  "negate NaN = NaN"
| "negate PosInf = NegInf"
| "negate NegInf = PosInf"
| "negate (Finite q) = Finite (- q)"

definition radix_literal :: "nat \<Rightarrow> string \<Rightarrow> jsnum" where
  "radix_literal b ds =
     (if ds \<noteq> [] \<and> list_all (in_base b) ds then dbl_round (of_nat (digits_val b ds)) else NaN)"

text \<open>\<open>Number(s)\<close> for a string \<open>s\<close>.\<close>

definition js_Number :: "string \<Rightarrow> jsnum" where
  "js_Number s =
     (case trim s of
        [] \<Rightarrow> Finite 0
      | c # cs \<Rightarrow>
          if c = CHR ''+'' then unsigned_literal cs
          else if c = CHR ''-'' then negate (unsigned_literal cs)
          else if c = CHR ''0'' \<and> cs \<noteq> [] \<and> hd cs \<in> {CHR ''x'', CHR ''X''} then radix_literal 16 (tl cs)
          else if c = CHR ''0'' \<and> cs \<noteq> [] \<and> hd cs \<in> {CHR ''o'', CHR ''O''} then radix_literal 8 (tl cs)
          else if c = CHR ''0'' \<and> cs \<noteq> [] \<and> hd cs \<in> {CHR ''b'', CHR ''B''} then radix_literal 2 (tl cs)
          else unsigned_literal (c # cs))"

fun Number_isFinite :: "jsnum \<Rightarrow> bool" where
  "Number_isFinite (Finite q) = True"
| "Number_isFinite n = False"

subsection \<open>\<open>encodeURIComponent\<close>\<close>

text \<open>
  Every byte of the UTF-8 text is escaped as \<open>%XX\<close>, except the letters, the digits and
  \<open>- _ . ! ~ * ' ( )\<close>.
\<close>

definition uri_unreserved :: "char \<Rightarrow> bool" where
  "uri_unreserved c =
     (let n = (of_char c :: nat)
      in (65 \<le> n \<and> n \<le> 90) \<or> (97 \<le> n \<and> n \<le> 122) \<or> (48 \<le> n \<and> n \<le> 57)
         \<or> n \<in> {45, 95, 46, 33, 126, 42, 39, 40, 41})"

definition hex_upper :: "nat \<Rightarrow> char" where
  "hex_upper d = ''0123456789ABCDEF'' ! d"

definition pct :: "char \<Rightarrow> string" where
  "pct c = [CHR ''%'', hex_upper ((of_char c :: nat) div 16), hex_upper ((of_char c :: nat) mod 16)]"

definition encodeURIComponent :: "string \<Rightarrow> string" where
  "encodeURIComponent s = concat (map (\<lambda>c. if uri_unreserved c then [c] else pct c) s)"

subsection \<open>\<open>JSON.stringify\<close>\<close>

definition hex_lower :: "nat \<Rightarrow> char" where
  "hex_lower d = ''0123456789abcdef'' ! d"

definition json_escape :: "char \<Rightarrow> string" where
  "json_escape c =
     (let n = (of_char c :: nat)
      in if n = 0x22 then [CHR 0x5C, CHR 0x22]
         else if n = 0x5C then [CHR 0x5C, CHR 0x5C]
         else if n = 0x08 then [CHR 0x5C, CHR ''b'']
         else if n = 0x0C then [CHR 0x5C, CHR ''f'']
         else if n = 0x0A then [CHR 0x5C, CHR ''n'']
         else if n = 0x0D then [CHR 0x5C, CHR ''r'']
         else if n = 0x09 then [CHR 0x5C, CHR ''t'']
         else if n < 0x20 then [CHR 0x5C, CHR ''u'', CHR ''0'', CHR ''0'', hex_lower (n div 16), hex_lower (n mod 16)]
         else [c])"

definition json_quote :: "string \<Rightarrow> string" where
  "json_quote s = [CHR 0x22] @ concat (map json_escape s) @ [CHR 0x22]"

fun join :: "string \<Rightarrow> string list \<Rightarrow> string" where
  "join sep [] = []"
| "join sep [x] = x"
| "join sep (x # y # ys) = x @ sep @ join sep (y # ys)"

text \<open>
  The serialisation of a value; \<open>None\<close> is the result \<open>undefined\<close>. The first argument
  prints a finite number. An \<open>undefined\<close> array element is written \<open>null\<close>, an
  \<open>undefined\<close> property is left out.
\<close>

fun stringify :: "(rat \<Rightarrow> string) \<Rightarrow> jsval \<Rightarrow> string option"
  and stringify_elems :: "(rat \<Rightarrow> string) \<Rightarrow> jsval list \<Rightarrow> string list"
  and stringify_members :: "(rat \<Rightarrow> string) \<Rightarrow> (string \<times> jsval) list \<Rightarrow> string list"
where
  "stringify ns JUndefined = None"
| "stringify ns JNull = Some ''null''"
| "stringify ns (JBool b) = Some (if b then ''true'' else ''false'')"
| "stringify ns (JNum n) = Some (case n of Finite q \<Rightarrow> ns q | _ \<Rightarrow> ''null'')"
| "stringify ns (JStr s) = Some (json_quote s)"
| "stringify ns (JArr vs) = Some (''['' @ join '','' (stringify_elems ns vs) @ '']'')"
| "stringify ns (JObj kvs) = Some (''{'' @ join '','' (stringify_members ns kvs) @ ''}'')"
| "stringify_elems ns [] = []"
| "stringify_elems ns (v # vs) =
     (case stringify ns v of None \<Rightarrow> ''null'' | Some t \<Rightarrow> t) # stringify_elems ns vs"
| "stringify_members ns [] = []"
| "stringify_members ns ((k, v) # kvs) =
     (case stringify ns v of
        None \<Rightarrow> stringify_members ns kvs
      | Some t \<Rightarrow> (json_quote k @ '':'' @ t) # stringify_members ns kvs)"

subsection \<open>\<open>String(v)\<close> and template literals\<close>

definition cannot_convert :: js_error where
  "cannot_convert = JsError ''TypeError'' ''Cannot convert object to primitive value'' None"

text \<open>
  The string of a value, as \<open>String(v)\<close> and \<open>`${v}`\<close> compute it. An array joins the
  strings of its elements with commas, \<open>null\<close> and \<open>undefined\<close> elements being empty.
  An object is \<open>[object Object]\<close>, unless an own property \<open>toString\<close> (which is data,
  never a function) hides the inherited method: then the conversion throws.
\<close>

fun js_String :: "(rat \<Rightarrow> string) \<Rightarrow> jsval \<Rightarrow> js_error + string"
  and js_join :: "(rat \<Rightarrow> string) \<Rightarrow> jsval list \<Rightarrow> js_error + string"
where
  "js_String ns JUndefined = Inr ''undefined''"
| "js_String ns JNull = Inr ''null''"
| "js_String ns (JBool b) = Inr (if b then ''true'' else ''false'')"
| "js_String ns (JNum n) =
     Inr (case n of NaN \<Rightarrow> ''NaN'' | PosInf \<Rightarrow> ''Infinity'' | NegInf \<Rightarrow> ''-Infinity'' | Finite q \<Rightarrow> ns q)"
| "js_String ns (JStr s) = Inr s"
| "js_String ns (JArr vs) = js_join ns vs"
| "js_String ns (JObj kvs) =
     (if ''toString'' \<in> fst ` set kvs then Inl cannot_convert else Inr ''[object Object]'')"
| "js_join ns [] = Inr []"
| "js_join ns (v # vs) =
     (case (if nullish v then Inr [] else js_String ns v) of
        Inl e \<Rightarrow> Inl e
      | Inr a \<Rightarrow>
          (case js_join ns vs of
             Inl e \<Rightarrow> Inl e
           | Inr b \<Rightarrow> Inr (if vs = [] then a else a @ '','' @ b)))"

section \<open>The process and its surroundings\<close>

text \<open>
  What a handler finds around it while it runs: the environment variables, the answer
  of the external API to each request (\<open>Inl\<close> when \<open>fetch\<close> rejects), the clock, and the
  two runtime functions that are taken as they are: \<open>JSON.parse\<close> (\<open>None\<close> when it
  throws) and the printing of a finite number. An outbound request is what the program
  hands to \<open>fetch\<close>: the URL as the program built it, the method, the headers and the
  body.
\<close>

record outbound =
  o_url :: string
  o_method :: string
  o_headers :: "(string \<times> string) list"
  o_body :: "string option"

text \<open>A response: its status and its body (\<open>Inl\<close> when reading the body rejects).\<close>

record response =
  status :: nat
  body_text :: "js_error + string"

record world =
  env :: "string \<rightharpoonup> string"
  fetch :: "outbound \<Rightarrow> js_error + response"
  Date_now :: nat
  JSON_parse :: "string \<Rightarrow> jsval option"
  Number_toString :: "rat \<Rightarrow> string"

text \<open>
  The variable \<open>auth\<close> (lines 12-16) is the state of the program. With it go two
  records of what the program has done: the requests it has sent out, in order, and the
  number of times \<open>imlAdminLogin\<close> has been called.
\<close>

record session =
  jwtTokenForSPA :: jsval
  jwtTokenIndexForSPA :: jsval
  loggedInAt :: nat

record proc =
  auth :: session
  sent :: "outbound list"
  logins :: nat

definition auth0 :: session where
  "auth0 = \<lparr>jwtTokenForSPA = JNull, jwtTokenIndexForSPA = JNull, loggedInAt = 0\<rparr>"

definition proc0 :: proc where
  "proc0 = \<lparr>auth = auth0, sent = [], logins = 0\<rparr>"

definition IML_BASE :: string where
  "IML_BASE = ''https://api.imleagues.com/''"

definition JSON_stringify :: "world \<Rightarrow> jsval \<Rightarrow> string option" where
  "JSON_stringify w v = stringify (Number_toString w) v"

text \<open>\<open>`${JSON.stringify(v)}`\<close>\<close>

definition stringify_text :: "world \<Rightarrow> jsval \<Rightarrow> string" where
  "stringify_text w v = (case JSON_stringify w v of None \<Rightarrow> ''undefined'' | Some t \<Rightarrow> t)"

text \<open>\<open>res.ok\<close>\<close>

definition res_ok :: "response \<Rightarrow> bool" where
  "res_ok r = (200 \<le> status r \<and> status r \<le> 299)"

text \<open>\<open>await res.json().catch(() => null)\<close>\<close>

definition res_json_or_null :: "world \<Rightarrow> response \<Rightarrow> jsval" where
  "res_json_or_null w r =
     (case body_text r of
        Inl e \<Rightarrow> JNull
      | Inr t \<Rightarrow> (case JSON_parse w t of None \<Rightarrow> JNull | Some v \<Rightarrow> v))"

section \<open>server.js\<close>

text \<open>
  Every function takes the process state and returns its result with the new state. A
  thrown error or a rejected promise is the result \<open>Inl\<close>. Each handler is run from its
  first statement to its reply without another handler running in between.
\<close>

subsection \<open>\<open>mustEnv\<close> (lines 18-22)\<close>

definition mustEnv :: "world \<Rightarrow> string \<Rightarrow> js_error + string" where
  "mustEnv w name =
     (case env w name of
        None \<Rightarrow> Inl (JsError ''Error'' (''Missing env var: '' @ name) None)
      | Some v \<Rightarrow>
          if v = [] then Inl (JsError ''Error'' (''Missing env var: '' @ name) None)
          else Inr v)"

subsection \<open>\<open>imlAdminLogin\<close> (lines 25-64)\<close>

text \<open>\<open>process.env.IML_SCHOOL_ID || ""\<close>\<close>

definition school_id :: "world \<Rightarrow> string" where
  "school_id w = (case env w ''IML_SCHOOL_ID'' of None \<Rightarrow> [] | Some v \<Rightarrow> if v = [] then [] else v)"

definition login_payload :: "world \<Rightarrow> string \<Rightarrow> string \<Rightarrow> jsval" where
  "login_payload w email password =
     JObj [(''schoolId'', JStr (school_id w)),
           (''forAdminSite'', JBool True),
           (''forApp'', JBool False),
           (''email'', JStr email),
           (''password'', JStr password),
           (''isSSO'', JBool False),
           (''isHttps'', JBool True),
           (''isMobileDevice'', JBool False),
           (''isElectron'', JBool False),
           (''clientType'', JNum (Finite 0)),
           (''timezone'', JNum (Finite (- 300)))]"

definition login_request :: "world \<Rightarrow> string \<Rightarrow> string \<Rightarrow> outbound" where
  "login_request w email password =
     \<lparr>o_url = IML_BASE @ ''admin/account/login'',
      o_method = ''POST'',
      o_headers = [(''Content-Type'', ''application/json'')],
      o_body = JSON_stringify w (login_payload w email password)\<rparr>"

definition login_failed :: "world \<Rightarrow> response \<Rightarrow> jsval \<Rightarrow> js_error" where
  "login_failed w res data =
     JsError ''Error''
       (''IMLeagues login failed ('' @ nat_to_string (status res) @ ''): '' @ stringify_text w data) None"

definition login_no_token :: "world \<Rightarrow> jsval \<Rightarrow> js_error" where
  "login_no_token w data =
     JsError ''Error''
       (''Login succeeded but no jwtTokenForSPA returned: '' @ stringify_text w data) None"

text \<open>
  The call is counted as it starts. The request is recorded as it is handed to \<open>fetch\<close>.
  The variable \<open>auth\<close> is assigned on the last path only (lines 57-61).
\<close>

definition imlAdminLogin :: "world \<Rightarrow> proc \<Rightarrow> (js_error + session) \<times> proc" where
  "imlAdminLogin w s =
     (let s0 = s\<lparr>logins := Suc (logins s)\<rparr>
      in
     (case mustEnv w ''IML_EMAIL'' of
        Inl e \<Rightarrow> (Inl e, s0)
      | Inr email \<Rightarrow>
     (case mustEnv w ''IML_PASSWORD'' of
        Inl e \<Rightarrow> (Inl e, s0)
      | Inr password \<Rightarrow>
          let req = login_request w email password;
              s1 = s0\<lparr>sent := sent s0 @ [req]\<rparr>
          in (case fetch w req of
                Inl e \<Rightarrow> (Inl e, s1)
              | Inr res \<Rightarrow>
                  let data = res_json_or_null w res
                  in if \<not> res_ok res then (Inl (login_failed w res data), s1)
                     else if \<not> truthy (opt_prop data ''jwtTokenForSPA'') then
                       (Inl (login_no_token w data), s1)
                     else
                       let a = \<lparr>jwtTokenForSPA = get_prop data ''jwtTokenForSPA'',
                                jwtTokenIndexForSPA = coalesce (get_prop data ''jwtTokenIndexForSPA'') JNull,
                                loggedInAt = Date_now w\<rparr>
                       in (Inr a, s1\<lparr>auth := a\<rparr>)))))"

subsection \<open>\<open>imlAuthHeaders\<close> (lines 68-73)\<close>

definition imlAuthHeaders :: "world \<Rightarrow> proc \<Rightarrow> js_error + (string \<times> string) list" where
  "imlAuthHeaders w s =
     (if \<not> truthy (jwtTokenForSPA (auth s)) then Inr []
      else (case js_String (Number_toString w) (jwtTokenForSPA (auth s)) of
              Inl e \<Rightarrow> Inl e
            | Inr t \<Rightarrow> Inr [(''Authorization'', ''Bearer '' @ t)]))"

subsection \<open>\<open>imlFetch\<close> (lines 75-100)\<close>

text \<open>\<open>path.startsWith("http") ? path : (IML_BASE + path.replace(/^\//, ""))\<close>\<close>

definition strip_slash :: "string \<Rightarrow> string" where
  "strip_slash path = (case path of [] \<Rightarrow> [] | c # cs \<Rightarrow> if c = CHR ''/'' then cs else c # cs)"

definition fetch_url :: "string \<Rightarrow> string" where
  "fetch_url path = (if prefix ''http'' path then path else IML_BASE @ strip_slash path)"

definition fetch_request :: "world \<Rightarrow> string \<Rightarrow> string \<Rightarrow> jsval \<Rightarrow> (string \<times> string) list \<Rightarrow> outbound" where
  "fetch_request w path method body auth_headers =
     \<lparr>o_url = fetch_url path,
      o_method = method,
      o_headers = (if truthy body then [(''Content-Type'', ''application/json'')] else []) @ auth_headers,
      o_body = (if truthy body then JSON_stringify w body else None)\<rparr>"

text \<open>\<open>try { json = text ? JSON.parse(text) : null; } catch {}\<close>, \<open>json\<close> being \<open>null\<close> before.\<close>

definition parse_or_null :: "world \<Rightarrow> string \<Rightarrow> jsval" where
  "parse_or_null w text =
     (if text \<noteq> [] then (case JSON_parse w text of None \<Rightarrow> JNull | Some v \<Rightarrow> v) else JNull)"

text \<open>\<open>`IMLeagues API error (${res.status}) on ${path}: ${text}`\<close>\<close>

definition api_error_msg :: "nat \<Rightarrow> string \<Rightarrow> string \<Rightarrow> string" where
  "api_error_msg code path text =
     ''IMLeagues API error ('' @ nat_to_string code @ '') on '' @ path @ '': '' @ text"

definition api_error :: "string \<Rightarrow> response \<Rightarrow> string \<Rightarrow> jsval \<Rightarrow> js_error" where
  "api_error path res text json =
     JsError ''Error'' (api_error_msg (status res) path text)
       (Some (status res, coalesce json (JStr text)))"

definition imlFetch :: "world \<Rightarrow> string \<Rightarrow> string \<Rightarrow> jsval \<Rightarrow> proc \<Rightarrow> (js_error + jsval) \<times> proc" where
  "imlFetch w path method body s =
     (case imlAuthHeaders w s of
        Inl e \<Rightarrow> (Inl e, s)
      | Inr auth_headers \<Rightarrow>
          let req = fetch_request w path method body auth_headers;
              s1 = s\<lparr>sent := sent s @ [req]\<rparr>
          in (case fetch w req of
                Inl e \<Rightarrow> (Inl e, s1)
              | Inr res \<Rightarrow>
                  (case body_text res of
                     Inl e \<Rightarrow> (Inl e, s1)
                   | Inr text \<Rightarrow>
                       let json = parse_or_null w text
                       in if \<not> res_ok res then (Inl (api_error path res text json), s1)
                          else (Inr (coalesce json (JStr text)), s1))))"

subsection \<open>The routes (lines 107-177)\<close>

record reply =
  r_status :: nat
  r_json :: jsval

text \<open>\<open>String(e.message || e)\<close>: an error without a message prints as its name.\<close>

definition error_text :: "js_error \<Rightarrow> string" where
  "error_text e = (if message e \<noteq> [] then message e else ename e)"

definition fail :: "nat \<Rightarrow> string \<Rightarrow> reply" where
  "fail c msg = \<lparr>r_status = c, r_json = JObj [(''ok'', JBool False), (''error'', JStr msg)]\<rparr>"

definition ok_data :: "jsval \<Rightarrow> reply" where
  "ok_data d = \<lparr>r_status = 200, r_json = JObj [(''ok'', JBool True), (''data'', d)]\<rparr>"

text \<open>\<open>POST /api/iml/login\<close> (lines 107-114)\<close>

definition post_login :: "world \<Rightarrow> proc \<Rightarrow> reply \<times> proc" where
  "post_login w s =
     (case imlAdminLogin w s of
        (Inl e, s1) \<Rightarrow> (fail 500 (error_text e), s1)
      | (Inr a, s1) \<Rightarrow>
          (\<lparr>r_status = 200,
            r_json = JObj [(''ok'', JBool True),
                           (''jwtTokenIndexForSPA'', coalesce (jwtTokenIndexForSPA a) JNull)]\<rparr>, s1))"

text \<open>
  \<open>GET /api/iml/games\<close> (lines 118-133); \<open>qstart\<close> and \<open>qend\<close> are \<open>req.query.start\<close> and
  \<open>req.query.end\<close>, \<open>undefined\<close> when the parameter is missing.
\<close>

definition games_path :: "string \<Rightarrow> string \<Rightarrow> string \<Rightarrow> string" where
  "games_path networkId st en =
     ''networks/'' @ encodeURIComponent networkId @ ''/games?start='' @ encodeURIComponent st
       @ ''&end='' @ encodeURIComponent en"

definition get_games :: "world \<Rightarrow> jsval \<Rightarrow> jsval \<Rightarrow> proc \<Rightarrow> reply \<times> proc" where
  "get_games w qstart qend s =
     (case mustEnv w ''IML_NETWORK_ID'' of
        Inl e \<Rightarrow> (fail 500 (error_text e), s)
      | Inr networkId \<Rightarrow>
          if \<not> truthy qstart \<or> \<not> truthy qend then
            (fail 400 ''Missing start/end query params (ISO datetime strings).'', s)
          else
            (case js_String (Number_toString w) qstart of
               Inl e \<Rightarrow> (fail 500 (error_text e), s)
             | Inr st \<Rightarrow>
            (case js_String (Number_toString w) qend of
               Inl e \<Rightarrow> (fail 500 (error_text e), s)
             | Inr en \<Rightarrow>
                 (case imlFetch w (games_path networkId st en) ''GET'' JUndefined s of
                    (Inl e, s1) \<Rightarrow> (fail 500 (error_text e), s1)
                  | (Inr d, s1) \<Rightarrow> (ok_data d, s1)))))"

text \<open>\<open>GET /api/iml/teams/:teamId/members\<close> (lines 137-145)\<close>

definition members_path :: "string \<Rightarrow> string" where
  "members_path teamId = ''teams/'' @ encodeURIComponent teamId @ ''/members''"

definition get_members :: "world \<Rightarrow> string \<Rightarrow> proc \<Rightarrow> reply \<times> proc" where
  "get_members w teamId s =
     (case imlFetch w (members_path teamId) ''GET'' JUndefined s of
        (Inl e, s1) \<Rightarrow> (fail 500 (error_text e), s1)
      | (Inr d, s1) \<Rightarrow> (ok_data d, s1))"

text \<open>
  \<open>POST /api/iml/games/:gameId/savescore\<close> (lines 149-177); \<open>gameId\<close> is
  \<open>req.params.gameId\<close> and \<open>body\<close> is \<open>req.body\<close>. Destructuring \<open>req.body\<close> throws when
  it is \<open>undefined\<close> or \<open>null\<close>.
\<close>

definition cannot_destructure :: "jsval \<Rightarrow> js_error" where
  "cannot_destructure body =
     JsError ''TypeError''
       (''Cannot destructure property '' @ [CHR 0x27] @ ''gameType'' @ [CHR 0x27] @ '' of ''
          @ [CHR 0x27] @ ''req.body'' @ [CHR 0x27] @ '' as it is ''
          @ (if body = JNull then ''null'' else ''undefined'') @ ''.'') None"

definition score_payload :: "string \<Rightarrow> string \<Rightarrow> jsval \<Rightarrow> jsnum \<Rightarrow> jsval \<Rightarrow> jsval" where
  "score_payload t1 t2 comments gameId gameType =
     JObj [(''gameResult'', JNum (Finite 1)),
           (''periodDetails'', JArr []),
           (''team1Score'', JStr t1),
           (''team2Score'', JStr t2),
           (''comments'', coalesce comments (JStr [])),
           (''gameId'', JNum gameId),
           (''gameType'', gameType)]"

text \<open>Line 152: \<open>if (!auth.jwtTokenForSPA) await imlAdminLogin();\<close>\<close>

definition ensure_logged_in :: "world \<Rightarrow> proc \<Rightarrow> (js_error + unit) \<times> proc" where
  "ensure_logged_in w s =
     (if \<not> truthy (jwtTokenForSPA (auth s)) then
        (case imlAdminLogin w s of
           (Inl e, s1) \<Rightarrow> (Inl e, s1)
         | (Inr a, s1) \<Rightarrow> (Inr (), s1))
      else (Inr (), s))"

definition post_savescore :: "world \<Rightarrow> string \<Rightarrow> jsval \<Rightarrow> proc \<Rightarrow> reply \<times> proc" where
  "post_savescore w gameId body s =
     (case ensure_logged_in w s of
        (Inl e, s1) \<Rightarrow> (fail 500 (error_text e), s1)
      | (Inr u, s1) \<Rightarrow>
          let gid = js_Number gameId
          in if nullish body then (fail 500 (error_text (cannot_destructure body)), s1)
             else
               let gameType = get_prop body ''gameType'';
                   team1Score = get_prop body ''team1Score'';
                   team2Score = get_prop body ''team2Score'';
                   comments = get_prop body ''comments''
               in if \<not> Number_isFinite gid then (fail 400 ''Invalid gameId'', s1)
                  else if gameType = JUndefined then (fail 400 ''Missing gameType (number)'', s1)
                  else
                    (case js_String (Number_toString w) (coalesce team1Score (JStr [])) of
                       Inl e \<Rightarrow> (fail 500 (error_text e), s1)
                     | Inr t1 \<Rightarrow>
                    (case js_String (Number_toString w) (coalesce team2Score (JStr [])) of
                       Inl e \<Rightarrow> (fail 500 (error_text e), s1)
                     | Inr t2 \<Rightarrow>
                         (case imlFetch w ''v3/me/games/savescore'' ''POST''
                                 (score_payload t1 t2 comments gid gameType) s1 of
                            (Inl e, s2) \<Rightarrow> (fail 500 (error_text e), s2)
                          | (Inr d, s2) \<Rightarrow> (ok_data d, s2)))))"

subsection \<open>The server as a transition system\<close>

datatype request =
    PostLogin
  | GetGames jsval jsval
  | GetMembers string
  | PostSaveScore string jsval

fun handle :: "world \<Rightarrow> request \<Rightarrow> proc \<Rightarrow> reply \<times> proc" where
  "handle w PostLogin s = post_login w s"
| "handle w (GetGames qstart qend) s = get_games w qstart qend s"
| "handle w (GetMembers teamId) s = get_members w teamId s"
| "handle w (PostSaveScore gameId body) s = post_savescore w gameId body s"

text \<open>A run: each request is handled in the surroundings it arrives in.\<close>

fun run :: "(world \<times> request) list \<Rightarrow> proc \<Rightarrow> proc" where
  "run [] s = s"
| "run ((w, r) # rest) s = run rest (snd (handle w r s))"

text \<open>The states the process can be in, when its surroundings are drawn from \<open>W\<close>.\<close>

inductive_set reachable :: "world set \<Rightarrow> proc set" for W :: "world set" where
  init: "proc0 \<in> reachable W"
| step: "s \<in> reachable W \<Longrightarrow> w \<in> W \<Longrightarrow> snd (handle w r s) \<in> reachable W"

section \<open>Vocabulary of the properties\<close>

text \<open>The outbound calls, told apart by the address they go to.\<close>

definition is_login_call :: "outbound \<Rightarrow> bool" where
  "is_login_call r = (o_url r = IML_BASE @ ''admin/account/login'')"

definition is_savescore_call :: "outbound \<Rightarrow> bool" where
  "is_savescore_call r = (o_url r = IML_BASE @ ''v3/me/games/savescore'')"

text \<open>A request carries the credential \<open>t\<close> when it has the header \<open>Authorization: Bearer t\<close>.\<close>

definition bears :: "string \<Rightarrow> outbound \<Rightarrow> bool" where
  "bears t r = (map_of (o_headers r) ''Authorization'' = Some (''Bearer '' @ t))"

definition has_authorization :: "outbound \<Rightarrow> bool" where
  "has_authorization r = (''Authorization'' \<in> fst ` set (o_headers r))"

definition has_json_content_type :: "outbound \<Rightarrow> bool" where
  "has_json_content_type r = ((''Content-Type'', ''application/json'') \<in> set (o_headers r))"

text \<open>
  The session is held when its primary token passes the test of lines 69 and 152. The
  invariant of the session: it is the initial record, or it holds a token and the
  reading of the clock of one of the surroundings \<open>W\<close> the process has run in.
\<close>

definition session_held :: "proc \<Rightarrow> bool" where
  "session_held s = truthy (jwtTokenForSPA (auth s))"

definition session_inv :: "world set \<Rightarrow> session \<Rightarrow> bool" where
  "session_inv W a =
     (a = auth0 \<or> (truthy (jwtTokenForSPA a) \<and> (\<exists>w \<in> W. loggedInAt a = Date_now w)))"

text \<open>
  The reply of a route to the outcome of the call it forwards: the two ends of its
  \<open>try\<close> and \<open>catch\<close>.
\<close>

definition forwarded :: "js_error + jsval \<Rightarrow> reply" where
  "forwarded r = (case r of Inl e \<Rightarrow> fail 500 (error_text e) | Inr d \<Rightarrow> ok_data d)"

text \<open>The characters that delimit the parts of a URL, and the delimiters of a URL in order.\<close>

definition uri_reserved :: "char \<Rightarrow> bool" where
  "uri_reserved c = (c \<in> set '';/?:@&=+$,#'')"

definition delimiters :: "string \<Rightarrow> string" where
  "delimiters u = filter uri_reserved u"

text \<open>Reading percent-escapes back, to state that the encoding loses nothing.\<close>

fun pct_decode :: "string \<Rightarrow> string" where
  "pct_decode [] = []"
| "pct_decode [c] = [c]"
| "pct_decode [c, d] = [c, d]"
| "pct_decode (c # h # l # cs) =
     (if c = CHR ''%'' then
        (case (digit_of h, digit_of l) of
           (Some a, Some b) \<Rightarrow> char_of (16 * a + b) # pct_decode cs
         | _ \<Rightarrow> c # pct_decode (h # l # cs))
      else c # pct_decode (h # l # cs))"

section \<open>Sample surroundings\<close>

text \<open>
  Concrete surroundings for the examples. \<open>sample_parse\<close> is \<open>JSON.parse\<close> on the
  texts the examples use, \<open>sample_number\<close> prints the integers the examples use as
  JavaScript prints them.
\<close>

definition token_body :: string where
  \<open>token_body = ''{"jwtTokenForSPA":"T1"}''\<close>

definition sample_parse :: "string \<Rightarrow> jsval option" where
  "sample_parse =
     map_of [(token_body, JObj [(''jwtTokenForSPA'', JStr ''T1'')]),
             (''null'', JNull),
             (''{}'', JObj []),
             (''[]'', JArr [])]"

definition sample_number :: "rat \<Rightarrow> string" where
  "sample_number q =
     (if q < 0 then ''-'' @ nat_to_string (nat (- \<lfloor>q\<rfloor>)) else nat_to_string (nat \<lfloor>q\<rfloor>))"

definition sample_env :: "string \<rightharpoonup> string" where
  "sample_env =
     map_of [(''IML_EMAIL'', ''admin@school.edu''),
             (''IML_PASSWORD'', ''secret''),
             (''IML_NETWORK_ID'', ''net/7'')]"

definition answer :: "nat \<Rightarrow> string \<Rightarrow> js_error + response" where
  "answer c t = Inr \<lparr>status = c, body_text = Inr t\<rparr>"

text \<open>An external API that answers the login call one way and every other call another way.\<close>

definition api :: "(js_error + response) \<Rightarrow> (js_error + response) \<Rightarrow> outbound \<Rightarrow> js_error + response" where
  "api login other r = (if is_login_call r then login else other)"

definition sample_world :: "(string \<rightharpoonup> string) \<Rightarrow> (outbound \<Rightarrow> js_error + response) \<Rightarrow> world" where
  "sample_world e f =
     \<lparr>env = e, fetch = f, Date_now = 1762128000000,
      JSON_parse = sample_parse, Number_toString = sample_number\<rparr>"

text \<open>Login succeeds with the token \<open>T1\<close>; every other call is answered \<open>200 []\<close>.\<close>

definition w_ok :: world where
  "w_ok = sample_world sample_env (api (answer 200 token_body) (answer 200 ''[]''))"

text \<open>Login is refused with 401; every other call is answered \<open>404 Not Found\<close>.\<close>

definition w_refused :: world where
  "w_refused = sample_world sample_env (api (answer 401 ''{}'') (answer 404 ''Not Found''))"

text \<open>Login answers 200 with an object that has no token.\<close>

definition w_no_token :: world where
  "w_no_token = sample_world sample_env (api (answer 200 ''{}'') (answer 200 ''[]''))"

text \<open>Every call other than login is answered 200 with the body \<open>null\<close>.\<close>

definition w_null :: world where
  "w_null = sample_world sample_env (api (answer 200 token_body) (answer 200 ''null''))"

text \<open>No environment variable is set.\<close>

definition w_bare :: world where
  "w_bare = sample_world Map.empty (api (answer 200 token_body) (answer 200 ''[]''))"

text \<open>
  Login succeeds; every other call is answered with the status 503 and a body whose
  reading rejects.
\<close>

definition w_cut :: world where
  "w_cut = sample_world sample_env
     (api (answer 200 token_body)
          (Inr \<lparr>status = 503, body_text = Inl (JsError ''TypeError'' ''terminated'' None)\<rparr>))"

text \<open>A process that holds the session of token \<open>T1\<close>, after one login.\<close>

definition held_T1 :: proc where
  "held_T1 =
     \<lparr>auth = \<lparr>jwtTokenForSPA = JStr ''T1'', jwtTokenIndexForSPA = JNull, loggedInAt = 1762128000000\<rparr>,
      sent = [], logins = 1\<rparr>"

text \<open>A process that holds an earlier session, of token \<open>T0\<close> and secondary token \<open>I0\<close>.\<close>

definition held_T0 :: proc where
  "held_T0 =
     \<lparr>auth = \<lparr>jwtTokenForSPA = JStr ''T0'', jwtTokenIndexForSPA = JStr ''I0'', loggedInAt = 1762041600000\<rparr>,
      sent = [], logins = 1\<rparr>"

text \<open>The body of a score submission: \<open>{"gameType":2,"team1Score":21,"team2Score":"19"}\<close>.\<close>

definition sample_score :: jsval where
  "sample_score =
     JObj [(''gameType'', JNum (Finite 2)), (''team1Score'', JNum (Finite 21)), (''team2Score'', JStr ''19'')]"

text \<open>Three requests that arrive one after the other, none of them a login.\<close>

definition sample_steps :: "(world \<times> request) list" where
  "sample_steps =
     [(w_refused, GetMembers ''5''),
      (w_ok, PostSaveScore ''42'' sample_score),
      (w_ok, GetGames (JStr ''2024-01-01'') (JStr ''2024-01-31''))]"

section \<open>What a call does to the state\<close>

lemma imlAdminLogin_cases:
  assumes "imlAdminLogin w s = (r, s')"
  shows "logins s' = Suc (logins s) \<and>
         ((sent s' = sent s \<and> auth s' = auth s \<and>
           (\<exists>e. r = Inl e \<and> (mustEnv w ''IML_EMAIL'' = Inl e \<or> mustEnv w ''IML_PASSWORD'' = Inl e))) \<or>
          (\<exists>email password.
             mustEnv w ''IML_EMAIL'' = Inr email \<and> mustEnv w ''IML_PASSWORD'' = Inr password \<and>
             sent s' = sent s @ [login_request w email password] \<and>
             ((\<exists>e. r = Inl e \<and> auth s' = auth s) \<or>
              (\<exists>a. r = Inr a \<and> truthy (jwtTokenForSPA a) \<and> loggedInAt a = Date_now w \<and>
                   auth s' = a))))"
  using assms
  by (auto simp: imlAdminLogin_def Let_def opt_prop_def split: sum.splits if_splits)

lemma login_replaces_session:
  assumes "imlAdminLogin w s = (Inr a, s')"
  shows "auth s' = a \<and> truthy (jwtTokenForSPA a) \<and> loggedInAt a = Date_now w \<and>
         (\<exists>email password res.
            mustEnv w ''IML_EMAIL'' = Inr email \<and> mustEnv w ''IML_PASSWORD'' = Inr password \<and>
            fetch w (login_request w email password) = Inr res \<and> res_ok res \<and>
            a = \<lparr>jwtTokenForSPA = get_prop (res_json_or_null w res) ''jwtTokenForSPA'',
                 jwtTokenIndexForSPA =
                   coalesce (get_prop (res_json_or_null w res) ''jwtTokenIndexForSPA'') JNull,
                 loggedInAt = Date_now w\<rparr>)"
  using assms
  by (auto simp: imlAdminLogin_def Let_def opt_prop_def split: sum.splits if_splits)

lemma login_success:
  assumes "mustEnv w ''IML_EMAIL'' = Inr email" "mustEnv w ''IML_PASSWORD'' = Inr password"
    "fetch w (login_request w email password) = Inr res" "res_ok res"
    "truthy (opt_prop (res_json_or_null w res) ''jwtTokenForSPA'')"
  shows "imlAdminLogin w s =
           (Inr \<lparr>jwtTokenForSPA = get_prop (res_json_or_null w res) ''jwtTokenForSPA'',
                 jwtTokenIndexForSPA =
                   coalesce (get_prop (res_json_or_null w res) ''jwtTokenIndexForSPA'') JNull,
                 loggedInAt = Date_now w\<rparr>,
            s\<lparr>logins := Suc (logins s),
              sent := sent s @ [login_request w email password],
              auth := \<lparr>jwtTokenForSPA = get_prop (res_json_or_null w res) ''jwtTokenForSPA'',
                       jwtTokenIndexForSPA =
                         coalesce (get_prop (res_json_or_null w res) ''jwtTokenIndexForSPA'') JNull,
                       loggedInAt = Date_now w\<rparr>\<rparr>)"
  using assms by (simp add: imlAdminLogin_def Let_def)

lemma imlFetch_cases:
  assumes "imlFetch w path m b s = (r, s')"
  shows "(s' = s \<and> (\<exists>e. r = Inl e)) \<or>
         (\<exists>ah. imlAuthHeaders w s = Inr ah \<and>
               s' = s\<lparr>sent := sent s @ [fetch_request w path m b ah]\<rparr>)"
  using assms
  by (auto simp: imlFetch_def Let_def split: sum.splits if_splits)

lemma auth_headers_without_session:
  "\<not> session_held s \<Longrightarrow> imlAuthHeaders w s = Inr []"
  by (simp add: imlAuthHeaders_def session_held_def)

lemma auth_headers_with_token:
  "jwtTokenForSPA (auth s) = JStr t \<Longrightarrow> t \<noteq> [] \<Longrightarrow>
     imlAuthHeaders w s = Inr [(''Authorization'', ''Bearer '' @ t)]"
  by (simp add: imlAuthHeaders_def)

lemma auth_headers_no_content_type:
  "imlAuthHeaders w s = Inr ah \<Longrightarrow> (''Content-Type'', v) \<notin> set ah"
  by (auto simp: imlAuthHeaders_def split: if_splits sum.splits)

lemma login_request_is_login: "is_login_call (login_request w e p)"
  by (simp add: is_login_call_def login_request_def)

lemma login_not_savescore: "is_login_call c \<Longrightarrow> \<not> is_savescore_call c"
  by (simp add: is_login_call_def is_savescore_call_def)

lemma savescore_request_is_savescore:
  "is_savescore_call (fetch_request w ''v3/me/games/savescore'' m b ah)"
  by (simp add: is_savescore_call_def fetch_request_def fetch_url_def strip_slash_def)

lemma members_request_not_login:
  "\<not> is_login_call (fetch_request w (members_path teamId) m b ah)"
  by (simp add: is_login_call_def fetch_request_def fetch_url_def members_path_def strip_slash_def)

lemma games_request_not_login:
  "\<not> is_login_call (fetch_request w (games_path networkId st en) m b ah)"
  by (simp add: is_login_call_def fetch_request_def fetch_url_def games_path_def strip_slash_def)

lemma get_request_without_session:
  "\<not> has_authorization (fetch_request w path m JUndefined [])"
  by (simp add: has_authorization_def fetch_request_def)

lemma fetch_request_bears:
  "bears t (fetch_request w path m b [(''Authorization'', h)]) \<longleftrightarrow> h = ''Bearer '' @ t"
  by (simp add: bears_def fetch_request_def)

lemma ensure_logged_in_cases:
  assumes "ensure_logged_in w s = (r, s')"
  shows "(session_held s \<and> r = Inr () \<and> s' = s) \<or>
         (\<not> session_held s \<and> logins s' = Suc (logins s) \<and>
            ((sent s' = sent s \<and> auth s' = auth s \<and>
              (\<exists>e. r = Inl e \<and> (mustEnv w ''IML_EMAIL'' = Inl e \<or> mustEnv w ''IML_PASSWORD'' = Inl e))) \<or>
             (\<exists>email password.
                mustEnv w ''IML_EMAIL'' = Inr email \<and> mustEnv w ''IML_PASSWORD'' = Inr password \<and>
                sent s' = sent s @ [login_request w email password] \<and>
                ((\<exists>e. r = Inl e \<and> auth s' = auth s) \<or>
                 (r = Inr () \<and> truthy (jwtTokenForSPA (auth s')) \<and>
                  loggedInAt (auth s') = Date_now w)))))"
proof (cases "session_held s")
  case True
  with assms show ?thesis by (auto simp: ensure_logged_in_def session_held_def)
next
  case False
  obtain r0 s0 where l: "imlAdminLogin w s = (r0, s0)" by (cases "imlAdminLogin w s")
  from assms False l
  have rs: "s' = s0" "(\<exists>e. r = Inl e \<and> r0 = Inl e) \<or> (r = Inr () \<and> (\<exists>a. r0 = Inr a))"
    by (auto simp: ensure_logged_in_def session_held_def split: sum.splits)
  from imlAdminLogin_cases[OF l] rs False show ?thesis by auto
qed

lemma get_members_cases:
  "get_members w teamId s = (rep, s') \<Longrightarrow>
     s' = s \<or> (\<exists>ah. imlAuthHeaders w s = Inr ah \<and>
               s' = s\<lparr>sent := sent s @ [fetch_request w (members_path teamId) ''GET'' JUndefined ah]\<rparr>)"
proof -
  assume a: "get_members w teamId s = (rep, s')"
  obtain r s1 where f: "imlFetch w (members_path teamId) ''GET'' JUndefined s = (r, s1)"
    by (cases "imlFetch w (members_path teamId) ''GET'' JUndefined s")
  with a have "s' = s1" by (auto simp: get_members_def split: sum.splits)
  with imlFetch_cases[OF f] show ?thesis by auto
qed

lemma get_games_cases:
  "get_games w qstart qend s = (rep, s') \<Longrightarrow>
     s' = s \<or> (\<exists>ah networkId st en.
               imlAuthHeaders w s = Inr ah \<and> mustEnv w ''IML_NETWORK_ID'' = Inr networkId \<and>
               js_String (Number_toString w) qstart = Inr st \<and>
               js_String (Number_toString w) qend = Inr en \<and>
               s' = s\<lparr>sent := sent s @ [fetch_request w (games_path networkId st en) ''GET'' JUndefined ah]\<rparr>)"
proof -
  assume a: "get_games w qstart qend s = (rep, s')"
  show ?thesis
  proof (cases "\<exists>networkId st en. mustEnv w ''IML_NETWORK_ID'' = Inr networkId \<and>
               js_String (Number_toString w) qstart = Inr st \<and>
               js_String (Number_toString w) qend = Inr en \<and> truthy qstart \<and> truthy qend")
    case True
    then obtain networkId st en where h: "mustEnv w ''IML_NETWORK_ID'' = Inr networkId"
      "js_String (Number_toString w) qstart = Inr st" "js_String (Number_toString w) qend = Inr en"
      "truthy qstart" "truthy qend" by blast
    obtain r s1 where f: "imlFetch w (games_path networkId st en) ''GET'' JUndefined s = (r, s1)"
      by (cases "imlFetch w (games_path networkId st en) ''GET'' JUndefined s")
    with a h have "s' = s1" by (auto simp: get_games_def split: sum.splits)
    with imlFetch_cases[OF f] h show ?thesis by auto
  next
    case False
    with a have "s' = s"
      by (auto simp: get_games_def split: sum.splits if_splits)
    then show ?thesis by simp
  qed
qed

lemma get_members_forward:
  "get_members w teamId s = (rep, s') \<Longrightarrow>
     \<exists>r. imlFetch w (members_path teamId) ''GET'' JUndefined s = (r, s') \<and> rep = forwarded r"
  by (auto simp: get_members_def forwarded_def split: prod.splits sum.splits)

lemma get_games_forward:
  "get_games w qstart qend s = (rep, s') \<Longrightarrow>
     s' = s \<or> (\<exists>path r. imlFetch w path ''GET'' JUndefined s = (r, s') \<and> rep = forwarded r)"
  by (auto simp: get_games_def forwarded_def split: prod.splits sum.splits if_splits)

lemma post_savescore_forward:
  "post_savescore w gameId body s = (rep, s') \<Longrightarrow> ensure_logged_in w s = (u, s1) \<Longrightarrow>
     s' = s1 \<or> (\<exists>p r. imlFetch w ''v3/me/games/savescore'' ''POST'' p s1 = (r, s') \<and> rep = forwarded r)"
  by (auto simp: post_savescore_def forwarded_def Let_def split: prod.splits sum.splits if_splits)

lemma post_savescore_calls:
  assumes "ensure_logged_in w s = (Inr u, s1)"
  shows "snd (post_savescore w gameId body s) = s1 \<or>
         (\<exists>ah p. imlAuthHeaders w s1 = Inr ah \<and>
            snd (post_savescore w gameId body s) =
              s1\<lparr>sent := sent s1 @ [fetch_request w ''v3/me/games/savescore'' ''POST'' p ah]\<rparr>)"
proof -
  obtain rep s' where p: "post_savescore w gameId body s = (rep, s')"
    by (cases "post_savescore w gameId body s")
  from post_savescore_forward[OF p assms] show ?thesis
  proof
    assume "s' = s1"
    with p show ?thesis by simp
  next
    assume "\<exists>pl r. imlFetch w ''v3/me/games/savescore'' ''POST'' pl s1 = (r, s') \<and> rep = forwarded r"
    then obtain pl r where "imlFetch w ''v3/me/games/savescore'' ''POST'' pl s1 = (r, s')" by blast
    from imlFetch_cases[OF this] p show ?thesis by auto
  qed
qed

lemma post_login_calls:
  "post_login w s = (rep, s') \<Longrightarrow> sent s' = sent s @ calls \<Longrightarrow> calls \<noteq> [] \<Longrightarrow> is_login_call (last calls)"
proof -
  assume p: "post_login w s = (rep, s')" and c: "sent s' = sent s @ calls" "calls \<noteq> []"
  obtain r s1 where l: "imlAdminLogin w s = (r, s1)" by (cases "imlAdminLogin w s")
  with p have "s' = s1" by (auto simp: post_login_def split: sum.splits)
  with imlAdminLogin_cases[OF l] c show ?thesis
    by (auto simp: login_request_is_login)
qed

lemma handle_auth:
  "auth (snd (handle w r s)) = auth s \<or>
   (truthy (jwtTokenForSPA (auth (snd (handle w r s)))) \<and>
    loggedInAt (auth (snd (handle w r s))) = Date_now w)"
proof (cases r)
  case PostLogin
  obtain x s1 where l: "imlAdminLogin w s = (x, s1)" by (cases "imlAdminLogin w s")
  then have "snd (post_login w s) = s1" by (auto simp: post_login_def split: sum.splits)
  with imlAdminLogin_cases[OF l] PostLogin show ?thesis by auto
next
  case (GetGames qstart qend)
  obtain rep s' where g: "get_games w qstart qend s = (rep, s')"
    by (cases "get_games w qstart qend s")
  from get_games_cases[OF g] g GetGames show ?thesis by auto
next
  case (GetMembers teamId)
  obtain rep s' where g: "get_members w teamId s = (rep, s')"
    by (cases "get_members w teamId s")
  from get_members_cases[OF g] g GetMembers show ?thesis by auto
next
  case (PostSaveScore gameId body)
  obtain u s1 where e: "ensure_logged_in w s = (u, s1)" by (cases "ensure_logged_in w s")
  from ensure_logged_in_cases[OF e]
  have a: "auth s1 = auth s \<or> (truthy (jwtTokenForSPA (auth s1)) \<and> loggedInAt (auth s1) = Date_now w)"
    by auto
  have "auth (snd (post_savescore w gameId body s)) = auth s1"
  proof (cases u)
    case (Inl err)
    with e show ?thesis by (simp add: post_savescore_def)
  next
    case (Inr v)
    from post_savescore_calls[OF e[unfolded Inr], of gameId body] show ?thesis by auto
  qed
  with a PostSaveScore show ?thesis by auto
qed

section \<open>Evaluating the examples\<close>

lemmas sample_defs = w_ok_def w_refused_def w_no_token_def w_null_def w_bare_def sample_world_def
  sample_env_def api_def answer_def is_login_call_def held_T1_def proc0_def auth0_def

lemmas eval_defs = mustEnv_def login_request_def login_payload_def school_id_def Let_def res_ok_def
  res_json_or_null_def sample_parse_def token_body_def login_failed_def login_no_token_def
  stringify_text_def JSON_stringify_def sample_number_def json_quote_def json_escape_def IML_BASE_def
  opt_prop_def coalesce_def imlAdminLogin_def imlAuthHeaders_def imlFetch_def fetch_request_def
  fetch_url_def strip_slash_def parse_or_null_def api_error_def api_error_msg_def error_text_def
  fail_def ok_data_def post_login_def get_games_def get_members_def post_savescore_def
  ensure_logged_in_def games_path_def members_path_def score_payload_def cannot_destructure_def

lemmas encode_defs = encodeURIComponent_def uri_unreserved_def pct_def hex_upper_def

lemma abc_not_a_number: "js_Number ''abc'' = NaN"
  by (simp add: js_Number_def trim_def ws_seqs_def unsigned_literal_def unsigned_decimal_def is_digit_def)

lemma bitlen_42: "bitlen 42 = 6"
  by code_simp

lemma dbl_round_42: "dbl_round 42 = Finite 42"
  by (simp add: dbl_round_def ilog2_def bitlen_42 pow2_def round_half_even_def Let_def)

lemma Number_42: "js_Number ''42'' = Finite 42"
  by (simp add: js_Number_def trim_def ws_seqs_def unsigned_literal_def unsigned_decimal_def
      is_digit_def digits_val_def digit_of_def pow10_def dbl_round_42)

lemma nat_to_string_404: "nat_to_string 404 = ''404''"
  by (simp add: nat_to_string.simps digit_char_def)

lemma nat_to_string_503: "nat_to_string 503 = ''503''"
  by (simp add: nat_to_string.simps digit_char_def)

lemma terminated_lacks_503: "\<not> sublist ''503'' ''terminated''"
  using set_mono_sublist[of "''503''" "''terminated''"] by auto

lemma login_ok_from_start:
  "post_login w_ok proc0 =
     (\<lparr>r_status = 200, r_json = JObj [(''ok'', JBool True), (''jwtTokenIndexForSPA'', JNull)]\<rparr>,
      held_T1\<lparr>sent := [login_request w_ok ''admin@school.edu'' ''secret'']\<rparr>)"
  by (simp add: post_login_def imlAdminLogin_def mustEnv_def sample_defs login_request_def Let_def
      res_ok_def res_json_or_null_def sample_parse_def opt_prop_def coalesce_def)

lemma login_ok_again:
  "post_login w_ok (held_T1\<lparr>sent := [login_request w_ok ''admin@school.edu'' ''secret'']\<rparr>) =
     (\<lparr>r_status = 200, r_json = JObj [(''ok'', JBool True), (''jwtTokenIndexForSPA'', JNull)]\<rparr>,
      held_T1\<lparr>sent := [login_request w_ok ''admin@school.edu'' ''secret'',
                         login_request w_ok ''admin@school.edu'' ''secret''],
              logins := 2\<rparr>)"
  by (simp add: post_login_def imlAdminLogin_def mustEnv_def sample_defs login_request_def Let_def
      res_ok_def res_json_or_null_def sample_parse_def opt_prop_def coalesce_def)

lemma login_twice:
  "run [(w_ok, PostLogin), (w_ok, PostLogin)] proc0 =
     held_T1\<lparr>sent := [login_request w_ok ''admin@school.edu'' ''secret'',
                        login_request w_ok ''admin@school.edu'' ''secret''],
             logins := 2\<rparr>"
  by (simp add: login_ok_from_start login_ok_again)

lemma members_refused:
  "get_members w_refused ''5'' held_T1 =
     (fail 500 ''IMLeagues API error (404) on teams/5/members: Not Found'',
      held_T1\<lparr>sent := [\<lparr>o_url = ''https://api.imleagues.com/teams/5/members'', o_method = ''GET'',
                          o_headers = [(''Authorization'', ''Bearer T1'')], o_body = None\<rparr>]\<rparr>)"
  by (simp add: eval_defs sample_defs encode_defs nat_to_string_404)

lemma members_cut:
  "get_members w_cut ''5'' held_T1 =
     (fail 500 ''terminated'',
      held_T1\<lparr>sent := [\<lparr>o_url = ''https://api.imleagues.com/teams/5/members'', o_method = ''GET'',
                          o_headers = [(''Authorization'', ''Bearer T1'')], o_body = None\<rparr>]\<rparr>)"
  by (simp add: eval_defs sample_defs encode_defs w_cut_def)

lemma savescore_42_from_start:
  "map o_url (sent (snd (post_savescore w_ok ''42'' sample_score proc0))) =
     [''https://api.imleagues.com/admin/account/login'',
      ''https://api.imleagues.com/v3/me/games/savescore'']"
  by (simp add: eval_defs sample_defs sample_score_def Number_42)

lemma savescore_42_held:
  "map o_url (sent (snd (post_savescore w_ok ''42'' sample_score held_T1))) =
     [''https://api.imleagues.com/v3/me/games/savescore'']"
  by (simp add: eval_defs sample_defs sample_score_def Number_42)

lemma sample_steps_headers:
  "map o_headers (sent (run sample_steps held_T1)) =
     [[(''Authorization'', ''Bearer T1'')],
      [(''Content-Type'', ''application/json''), (''Authorization'', ''Bearer T1'')],
      [(''Authorization'', ''Bearer T1'')]]"
  by (simp add: sample_steps_def eval_defs sample_defs encode_defs Number_42 sample_score_def nat_to_string_404)

lemma members_tricky:
  "map o_url (sent (snd (get_members w_ok ''5/../x?y=1#z'' held_T1))) =
     [''https://api.imleagues.com/teams/5%2F..%2Fx%3Fy%3D1%23z/members'']"
  by (simp add: eval_defs sample_defs encode_defs)

lemma games_tricky:
  "map o_url (sent (snd (get_games w_ok (JStr ''2024-01-01T00:00:00Z&admin=1'') (JArr [JStr ''a'', JStr ''b'']) held_T1))) =
     [''https://api.imleagues.com/networks/net%2F7/games?start=2024-01-01T00%3A00%3A00Z%26admin%3D1&end=a%2Cb'']"
  by (simp add: eval_defs sample_defs encode_defs)

section \<open>C1: a game id that is not a number\<close>

text \<open>
  C1 (as amended). Take a score submission whose \<open>gameId\<close> does not convert to a finite
  number and whose body is not \<open>undefined\<close> or \<open>null\<close>. When a session is held, the reply
  is 400 with the message \<open>Invalid gameId\<close> and nothing is sent out. When no session is
  held, line 152 logs in first: the reply is 400 \<open>Invalid gameId\<close> if that login succeeds
  and 500 if it throws. In every case at most one call goes out, it is a login call, and
  no score-submission call is made.
\<close>

theorem savescore_invalid_gameId:
  assumes "\<not> Number_isFinite (js_Number gameId)" and "\<not> nullish body"
  shows "(session_held s \<longrightarrow> post_savescore w gameId body s = (fail 400 ''Invalid gameId'', s)) \<and>
         (\<not> session_held s \<longrightarrow>
            post_savescore w gameId body s =
              (case imlAdminLogin w s of
                 (Inl e, s1) \<Rightarrow> (fail 500 (error_text e), s1)
               | (Inr a, s1) \<Rightarrow> (fail 400 ''Invalid gameId'', s1))) \<and>
         (\<exists>calls. sent (snd (post_savescore w gameId body s)) = sent s @ calls \<and> length calls \<le> 1 \<and>
            (\<forall>c \<in> set calls. is_login_call c \<and> \<not> is_savescore_call c))"
proof -
  have ps: "post_savescore w gameId body s =
      (case ensure_logged_in w s of
         (Inl e, s1) \<Rightarrow> (fail 500 (error_text e), s1)
       | (Inr u, s1) \<Rightarrow> (fail 400 ''Invalid gameId'', s1))"
    using assms by (simp add: post_savescore_def Let_def split: prod.splits sum.splits)
  have a: "session_held s \<longrightarrow> post_savescore w gameId body s = (fail 400 ''Invalid gameId'', s)"
    by (simp add: ps ensure_logged_in_def session_held_def)
  have b: "\<not> session_held s \<longrightarrow>
            post_savescore w gameId body s =
              (case imlAdminLogin w s of
                 (Inl e, s1) \<Rightarrow> (fail 500 (error_text e), s1)
               | (Inr a, s1) \<Rightarrow> (fail 400 ''Invalid gameId'', s1))"
    by (simp add: ps ensure_logged_in_def session_held_def split: prod.splits sum.splits)
  obtain r s1 where e: "ensure_logged_in w s = (r, s1)" by (cases "ensure_logged_in w s")
  have s1: "snd (post_savescore w gameId body s) = s1"
    using e by (simp add: ps split: sum.splits)
  have c: "\<exists>calls. sent s1 = sent s @ calls \<and> length calls \<le> 1 \<and>
            (\<forall>c \<in> set calls. is_login_call c \<and> \<not> is_savescore_call c)"
    using ensure_logged_in_cases[OF e]
    by (auto simp: login_request_is_login login_not_savescore)
  from a b c s1 show ?thesis by simp
qed

text \<open>
  The game id \<open>abc\<close> arrives at a process that holds the token \<open>T1\<close>, and at one that
  holds no session.
\<close>

theorem savescore_invalid_gameId_witness:
  "\<not> Number_isFinite (js_Number ''abc'') \<and> \<not> nullish (JObj []) \<and> session_held held_T1 \<and>
   post_savescore w_ok ''abc'' (JObj []) held_T1 = (fail 400 ''Invalid gameId'', held_T1) \<and>
   \<not> session_held proc0 \<and>
   list_all is_login_call (sent (snd (post_savescore w_ok ''abc'' (JObj []) proc0))) \<and>
   list_all is_login_call (sent (snd (post_savescore w_refused ''abc'' (JObj []) proc0)))"
proof -
  have a: "\<not> Number_isFinite (js_Number ''abc'')"
    by (simp add: abc_not_a_number)
  have b: "\<not> nullish (JObj [])"
    by simp
  have c: "session_held held_T1"
    by (simp add: session_held_def held_T1_def)
  have d: "\<not> session_held proc0"
    by (simp add: session_held_def proc0_def auth0_def)
  have e: "sent proc0 = []"
    by (simp add: proc0_def)
  from savescore_invalid_gameId[OF a b, of held_T1 w_ok] c
  have 1: "post_savescore w_ok ''abc'' (JObj []) held_T1 = (fail 400 ''Invalid gameId'', held_T1)"
    by simp
  from savescore_invalid_gameId[OF a b, of proc0 w_ok] e
  have 2: "list_all is_login_call (sent (snd (post_savescore w_ok ''abc'' (JObj []) proc0)))"
    by (auto simp: list_all_iff)
  from savescore_invalid_gameId[OF a b, of proc0 w_refused] e
  have 3: "list_all is_login_call (sent (snd (post_savescore w_refused ''abc'' (JObj []) proc0)))"
    by (auto simp: list_all_iff)
  from a b c d 1 2 3 show ?thesis by simp
qed

text \<open>
  As first stated, C1 promises status 400 and no outbound call in every session state.
  From the initial state (no session), the game id \<open>abc\<close> makes the process send the
  login call before it looks at the game id; when that login is refused the reply is
  500.
\<close>

theorem savescore_invalid_gameId_counterexample:
  "\<not> Number_isFinite (js_Number ''abc'') \<and>
   r_status (fst (post_savescore w_ok ''abc'' (JObj []) proc0)) = 400 \<and>
   map o_url (sent (snd (post_savescore w_ok ''abc'' (JObj []) proc0))) =
     [''https://api.imleagues.com/admin/account/login''] \<and>
   r_status (fst (post_savescore w_refused ''abc'' (JObj []) proc0)) = 500 \<and>
   map o_url (sent (snd (post_savescore w_refused ''abc'' (JObj []) proc0))) =
     [''https://api.imleagues.com/admin/account/login'']"
  by (simp add: abc_not_a_number eval_defs sample_defs)

section \<open>C2: a login that fails\<close>

text \<open>
  C2. Whatever session is held before, a login that fails leaves it as it was. When the
  external call answers with a status outside 200-299, \<open>imlAdminLogin\<close> throws the error
  of line 51; when it answers with a success status and a body without a (truthy)
  \<open>jwtTokenForSPA\<close>, it throws the error of line 54; in both cases \<open>auth\<close> is unchanged.
\<close>

theorem login_failure_keeps_session:
  "(\<forall>e s'. imlAdminLogin w s = (Inl e, s') \<longrightarrow> auth s' = auth s) \<and>
   (\<forall>email password res.
      mustEnv w ''IML_EMAIL'' = Inr email \<and> mustEnv w ''IML_PASSWORD'' = Inr password \<and>
      fetch w (login_request w email password) = Inr res \<longrightarrow>
      (\<not> res_ok res \<longrightarrow>
         fst (imlAdminLogin w s) = Inl (login_failed w res (res_json_or_null w res)) \<and>
         auth (snd (imlAdminLogin w s)) = auth s) \<and>
      (res_ok res \<and> \<not> truthy (opt_prop (res_json_or_null w res) ''jwtTokenForSPA'') \<longrightarrow>
         fst (imlAdminLogin w s) = Inl (login_no_token w (res_json_or_null w res)) \<and>
         auth (snd (imlAdminLogin w s)) = auth s))"
proof (intro conjI allI impI)
  fix e s' assume "imlAdminLogin w s = (Inl e, s')"
  from imlAdminLogin_cases[OF this] show "auth s' = auth s" by auto
next
  fix email password res
  assume h: "mustEnv w ''IML_EMAIL'' = Inr email \<and> mustEnv w ''IML_PASSWORD'' = Inr password \<and>
      fetch w (login_request w email password) = Inr res"
  { assume n: "\<not> res_ok res"
    with h show "fst (imlAdminLogin w s) = Inl (login_failed w res (res_json_or_null w res))"
      by (simp add: imlAdminLogin_def Let_def)
    from n h show "auth (snd (imlAdminLogin w s)) = auth s"
      by (simp add: imlAdminLogin_def Let_def) }
  { assume n: "res_ok res \<and> \<not> truthy (opt_prop (res_json_or_null w res) ''jwtTokenForSPA'')"
    with h show "fst (imlAdminLogin w s) = Inl (login_no_token w (res_json_or_null w res))"
      by (simp add: imlAdminLogin_def Let_def)
    from n h show "auth (snd (imlAdminLogin w s)) = auth s"
      by (simp add: imlAdminLogin_def Let_def) }
qed

text \<open>
  A process holding the token \<open>T1\<close> logs in again: once refused with 401, once answered
  200 with the body \<open>{}\<close>. Both logins throw, and the token \<open>T1\<close> is still held.
\<close>

theorem login_failure_keeps_session_witness:
  "fst (imlAdminLogin w_refused held_T1) = Inl (JsError ''Error'' ''IMLeagues login failed (401): {}'' None) \<and>
   auth (snd (imlAdminLogin w_refused held_T1)) = auth held_T1 \<and>
   jwtTokenForSPA (auth (snd (imlAdminLogin w_refused held_T1))) = JStr ''T1'' \<and>
   fst (imlAdminLogin w_no_token held_T1) =
     Inl (JsError ''Error'' ''Login succeeded but no jwtTokenForSPA returned: {}'' None) \<and>
   auth (snd (imlAdminLogin w_no_token held_T1)) = auth held_T1"
proof -
  have e1: "mustEnv w_refused ''IML_EMAIL'' = Inr ''admin@school.edu'' \<and>
            mustEnv w_refused ''IML_PASSWORD'' = Inr ''secret'' \<and>
            fetch w_refused (login_request w_refused ''admin@school.edu'' ''secret'') =
              Inr \<lparr>status = 401, body_text = Inr ''{}''\<rparr>"
    by (simp add: sample_defs mustEnv_def login_request_def)
  have e2: "mustEnv w_no_token ''IML_EMAIL'' = Inr ''admin@school.edu'' \<and>
            mustEnv w_no_token ''IML_PASSWORD'' = Inr ''secret'' \<and>
            fetch w_no_token (login_request w_no_token ''admin@school.edu'' ''secret'') =
              Inr \<lparr>status = 200, body_text = Inr ''{}''\<rparr>"
    by (simp add: sample_defs mustEnv_def login_request_def)
  have n1: "\<not> res_ok \<lparr>status = 401, body_text = Inr ''{}''\<rparr>"
    by (simp add: res_ok_def)
  have d1: "res_json_or_null w_refused \<lparr>status = 401, body_text = Inr ''{}''\<rparr> = JObj []"
    by (simp add: res_json_or_null_def sample_defs sample_parse_def token_body_def)
  have d2: "res_json_or_null w_no_token \<lparr>status = 200, body_text = Inr ''{}''\<rparr> = JObj []"
    by (simp add: res_json_or_null_def sample_defs sample_parse_def token_body_def)
  have n2: "res_ok \<lparr>status = 200, body_text = Inr ''{}''\<rparr> \<and>
            \<not> truthy (opt_prop (JObj []) ''jwtTokenForSPA'')"
    by (simp add: res_ok_def opt_prop_def)
  have m1: "login_failed w_refused \<lparr>status = 401, body_text = Inr ''{}''\<rparr> (JObj []) =
            JsError ''Error'' ''IMLeagues login failed (401): {}'' None"
    by (simp add: login_failed_def stringify_text_def JSON_stringify_def nat_to_string.simps
        digit_char_def)
  have m2: "login_no_token w_no_token (JObj []) =
            JsError ''Error'' ''Login succeeded but no jwtTokenForSPA returned: {}'' None"
    by (simp add: login_no_token_def stringify_text_def JSON_stringify_def)
  from login_failure_keeps_session[of w_refused held_T1] e1 n1 d1 m1
  have a: "fst (imlAdminLogin w_refused held_T1) =
             Inl (JsError ''Error'' ''IMLeagues login failed (401): {}'' None) \<and>
           auth (snd (imlAdminLogin w_refused held_T1)) = auth held_T1"
    by metis
  from login_failure_keeps_session[of w_no_token held_T1] e2 n2 d2 m2
  have b: "fst (imlAdminLogin w_no_token held_T1) =
             Inl (JsError ''Error'' ''Login succeeded but no jwtTokenForSPA returned: {}'' None) \<and>
           auth (snd (imlAdminLogin w_no_token held_T1)) = auth held_T1"
    by metis
  from a b show ?thesis by (simp add: held_T1_def)
qed

section \<open>C3: login before a score submission\<close>

text \<open>
  C3. A score submission that arrives when no session is held calls \<open>imlAdminLogin\<close>
  exactly once, and the calls it sends out are, in order: nothing, or one login call, or
  one login call followed by the score-submission call. So the score-submission call is
  always preceded by exactly one login call; and with the credentials configured the
  login call is always sent. A score submission that arrives when a session is held
  does not call \<open>imlAdminLogin\<close>, and sends out nothing or the score-submission call
  alone.
\<close>

theorem savescore_login_calls:
  "\<exists>calls. sent (snd (post_savescore w gameId body s)) = sent s @ calls \<and>
     (if session_held s
      then logins (snd (post_savescore w gameId body s)) = logins s \<and>
           (calls = [] \<or> (\<exists>c. calls = [c] \<and> is_savescore_call c \<and> \<not> is_login_call c))
      else logins (snd (post_savescore w gameId body s)) = Suc (logins s) \<and>
           (calls = [] \<or> (\<exists>l. calls = [l] \<and> is_login_call l) \<or>
            (\<exists>l c. calls = [l, c] \<and> is_login_call l \<and> \<not> is_savescore_call l \<and>
                   is_savescore_call c \<and> \<not> is_login_call c))) \<and>
     (\<not> session_held s \<and> (\<exists>e p. mustEnv w ''IML_EMAIL'' = Inr e \<and> mustEnv w ''IML_PASSWORD'' = Inr p)
        \<longrightarrow> calls \<noteq> [] \<and> is_login_call (hd calls))"
proof -
  let ?s' = "snd (post_savescore w gameId body s)"
  obtain r s1 where e: "ensure_logged_in w s = (r, s1)" by (cases "ensure_logged_in w s")
  have "\<exists>calls2. sent ?s' = sent s1 @ calls2 \<and> logins ?s' = logins s1 \<and>
          ((\<exists>err. r = Inl err) \<longrightarrow> calls2 = []) \<and>
          (calls2 = [] \<or> (\<exists>c. calls2 = [c] \<and> is_savescore_call c \<and> \<not> is_login_call c))"
  proof (cases r)
    case (Inl err)
    with e have "?s' = s1" by (simp add: post_savescore_def)
    then show ?thesis by simp
  next
    case (Inr u)
    from post_savescore_calls[OF e[unfolded Inr], of gameId body] Inr show ?thesis
      using savescore_request_is_savescore login_not_savescore by fastforce
  qed
  then obtain calls2 where c2: "sent ?s' = sent s1 @ calls2" "logins ?s' = logins s1"
    "(\<exists>err. r = Inl err) \<longrightarrow> calls2 = []"
    "calls2 = [] \<or> (\<exists>c. calls2 = [c] \<and> is_savescore_call c \<and> \<not> is_login_call c)"
    by blast
  from ensure_logged_in_cases[OF e] consider
      (held) "session_held s" "s1 = s" "r = Inr ()"
    | (unconfigured) err where "\<not> session_held s" "logins s1 = Suc (logins s)" "sent s1 = sent s"
        "r = Inl err" "mustEnv w ''IML_EMAIL'' = Inl err \<or> mustEnv w ''IML_PASSWORD'' = Inl err"
    | (login) email password where "\<not> session_held s" "logins s1 = Suc (logins s)"
        "sent s1 = sent s @ [login_request w email password]"
    by blast
  then show ?thesis
  proof cases
    case held
    with c2 show ?thesis by auto
  next
    case unconfigured
    with c2 have "sent ?s' = sent s @ []" "logins ?s' = Suc (logins s)" by auto
    with unconfigured(1,5) show ?thesis by (intro exI[of _ "[]"]) auto
  next
    case login
    with c2 have "sent ?s' = sent s @ (login_request w email password # calls2)"
      "logins ?s' = Suc (logins s)" by auto
    with c2(4) login(1) show ?thesis
      by (intro exI[of _ "login_request w email password # calls2"])
         (auto simp: login_request_is_login login_not_savescore)
  qed
qed

text \<open>
  From the initial state the submission of game 42 calls \<open>imlAdminLogin\<close> once and
  sends the login call and then the score-submission call; from a state holding \<open>T1\<close>
  it does not call \<open>imlAdminLogin\<close> and sends the score-submission call alone.
\<close>

theorem savescore_login_calls_witness:
  "\<not> session_held proc0 \<and>
   logins (snd (post_savescore w_ok ''42'' sample_score proc0)) = Suc (logins proc0) \<and>
   sent (snd (post_savescore w_ok ''42'' sample_score proc0)) \<noteq> [] \<and>
   is_login_call (hd (sent (snd (post_savescore w_ok ''42'' sample_score proc0)))) \<and>
   map o_url (sent (snd (post_savescore w_ok ''42'' sample_score proc0))) =
     [''https://api.imleagues.com/admin/account/login'',
      ''https://api.imleagues.com/v3/me/games/savescore''] \<and>
   session_held held_T1 \<and>
   logins (snd (post_savescore w_ok ''42'' sample_score held_T1)) = logins held_T1 \<and>
   map o_url (sent (snd (post_savescore w_ok ''42'' sample_score held_T1))) =
     [''https://api.imleagues.com/v3/me/games/savescore'']"
proof -
  have a: "\<not> session_held proc0"
    by (simp add: session_held_def proc0_def auth0_def)
  have b: "mustEnv w_ok ''IML_EMAIL'' = Inr ''admin@school.edu'' \<and>
           mustEnv w_ok ''IML_PASSWORD'' = Inr ''secret''"
    by (simp add: mustEnv_def sample_defs)
  have c: "sent proc0 = []"
    by (simp add: proc0_def)
  have h: "session_held held_T1"
    by (simp add: session_held_def held_T1_def)
  from savescore_login_calls[of w_ok "''42''" sample_score proc0] a b c
  have 1: "logins (snd (post_savescore w_ok ''42'' sample_score proc0)) = Suc (logins proc0) \<and>
        sent (snd (post_savescore w_ok ''42'' sample_score proc0)) \<noteq> [] \<and>
        is_login_call (hd (sent (snd (post_savescore w_ok ''42'' sample_score proc0))))"
    by auto
  from savescore_login_calls[of w_ok "''42''" sample_score held_T1] h
  have 2: "logins (snd (post_savescore w_ok ''42'' sample_score held_T1)) = logins held_T1"
    by auto
  from a h 1 2 savescore_42_from_start savescore_42_held show ?thesis
    by simp
qed

section \<open>C4: a games listing without its date range\<close>

text \<open>
  C4 (as amended). A games-listing request whose \<open>start\<close> or \<open>end\<close> query parameter is
  missing (or empty) issues no outbound call and leaves the state as it was. Its reply
  is 400 when the network identifier \<open>IML_NETWORK_ID\<close> is configured; when it is not,
  line 120 throws first and the reply is 500 with the message of \<open>mustEnv\<close>.
\<close>

theorem games_missing_range:
  assumes "\<not> truthy qstart \<or> \<not> truthy qend"
  shows "snd (get_games w qstart qend s) = s \<and>
         fst (get_games w qstart qend s) =
           (case mustEnv w ''IML_NETWORK_ID'' of
              Inl e \<Rightarrow> fail 500 ''Missing env var: IML_NETWORK_ID''
            | Inr networkId \<Rightarrow> fail 400 ''Missing start/end query params (ISO datetime strings).'')"
  using assms
  by (auto simp: get_games_def mustEnv_def error_text_def split: sum.splits option.splits)

text \<open>With the network identifier configured and \<open>start\<close> missing, the reply is 400.\<close>

theorem games_missing_range_witness:
  "\<not> truthy JUndefined \<and>
   get_games w_ok JUndefined (JStr ''2024-01-31'') held_T1 =
     (fail 400 ''Missing start/end query params (ISO datetime strings).'', held_T1)"
proof -
  have m: "mustEnv w_ok ''IML_NETWORK_ID'' = Inr ''net/7''"
    by (simp add: mustEnv_def sample_defs)
  have "\<not> truthy JUndefined \<or> \<not> truthy (JStr ''2024-01-31'')" by simp
  from games_missing_range[OF this, of w_ok held_T1] m show ?thesis
    by (simp add: prod_eq_iff)
qed

text \<open>
  As first stated, C4 promises status 400 for every such request. With no environment
  variable set and \<open>start\<close> missing, the reply is 500.
\<close>

theorem games_missing_range_counterexample:
  "\<not> truthy JUndefined \<and>
   get_games w_bare JUndefined (JStr ''2024-01-31'') proc0 =
     (fail 500 ''Missing env var: IML_NETWORK_ID'', proc0) \<and>
   r_status (fst (get_games w_bare JUndefined (JStr ''2024-01-31'') proc0)) \<noteq> 400"
  by (simp add: get_games_def mustEnv_def error_text_def fail_def w_bare_def sample_world_def)

section \<open>C5: a failure of the external API\<close>

lemma api_error_text:
  "error_text (api_error path res text json) = api_error_msg (status res) path text"
  by (simp add: error_text_def api_error_def api_error_msg_def)

lemma imlFetch_upstream_error:
  assumes f: "imlFetch w path m b s = (r, s')"
    and c: "sent s' = sent s @ calls" "calls \<noteq> []"
    and a: "fetch w (last calls) = Inr res" "\<not> res_ok res" "body_text res = Inr text"
  shows "r = Inl (api_error path res text (parse_or_null w text)) \<and>
         o_url (last calls) = fetch_url path"
proof -
  from imlFetch_cases[OF f] c obtain ah where
    h: "imlAuthHeaders w s = Inr ah" "s' = s\<lparr>sent := sent s @ [fetch_request w path m b ah]\<rparr>"
    by auto
  with c have l: "calls = [fetch_request w path m b ah]" by simp
  with a have "fetch w (fetch_request w path m b ah) = Inr res" by simp
  with f h(1) a(2,3) have "r = Inl (api_error path res text (parse_or_null w text))"
    by (simp add: imlFetch_def Let_def)
  moreover from l have "o_url (last calls) = fetch_url path"
    by (simp add: fetch_request_def)
  ultimately show ?thesis by simp
qed

lemma forwarded_upstream_error:
  assumes f: "imlFetch w path m b s = (r, s')" and rep: "rep = forwarded r"
    and c: "sent s' = sent s @ calls" "calls \<noteq> []"
    and a: "fetch w (last calls) = Inr res" "\<not> res_ok res" "body_text res = Inr text"
  shows "o_url (last calls) = fetch_url path \<and>
         rep = fail 500 (api_error_msg (status res) path text)"
  using imlFetch_upstream_error[OF f c a] rep
  by (simp add: forwarded_def api_error_text)

lemma api_error_msg_contains:
  "sublist (nat_to_string code) (api_error_msg code path text) \<and>
   sublist text (api_error_msg code path text)"
proof
  show "sublist (nat_to_string code) (api_error_msg code path text)"
    unfolding api_error_msg_def by (rule sublist_appendI)
  have "api_error_msg code path text =
        (''IMLeagues API error ('' @ nat_to_string code @ '') on '' @ path @ '': '') @ text @ []"
    by (simp add: api_error_msg_def)
  then show "sublist text (api_error_msg code path text)"
    by (metis sublist_appendI)
qed

lemma imlFetch_upstream_unread:
  assumes f: "imlFetch w path m b s = (r, s')"
    and c: "sent s' = sent s @ calls" "calls \<noteq> []"
    and a: "fetch w (last calls) = Inr res" "body_text res = Inl e"
  shows "r = Inl e"
proof -
  from imlFetch_cases[OF f] c obtain ah where
    h: "imlAuthHeaders w s = Inr ah" "s' = s\<lparr>sent := sent s @ [fetch_request w path m b ah]\<rparr>"
    by auto
  with c have l: "calls = [fetch_request w path m b ah]" by simp
  with a have "fetch w (fetch_request w path m b ah) = Inr res" by simp
  with f h(1) a(2) show "r = Inl e"
    by (simp add: imlFetch_def Let_def)
qed

lemma forwarded_upstream_unread:
  assumes f: "imlFetch w path m b s = (r, s')" and rep: "rep = forwarded r"
    and c: "sent s' = sent s @ calls" "calls \<noteq> []"
    and a: "fetch w (last calls) = Inr res" "body_text res = Inl e"
  shows "rep = fail 500 (error_text e)"
  using imlFetch_upstream_unread[OF f c a] rep
  by (simp add: forwarded_def)

text \<open>The forwarded call a request ended with, when it ended with one.\<close>

lemma handle_last_forwarded:
  assumes h: "handle w req s = (rep, s')"
    and c: "sent s' = sent s @ calls" "calls \<noteq> []" "\<not> is_login_call (last calls)"
  shows "\<exists>path m b s1 r x. imlFetch w path m b s1 = (r, s') \<and> rep = forwarded r \<and>
            sent s' = sent s1 @ [x] \<and> last calls = x"
proof (cases req)
  case PostLogin
  with h post_login_calls[of w s rep s' calls] c show ?thesis by simp
next
  case (GetGames qstart qend)
  with h have "get_games w qstart qend s = (rep, s')" by simp
  from get_games_forward[OF this] c(1,2)
  obtain path r where f: "imlFetch w path ''GET'' JUndefined s = (r, s')" and rep: "rep = forwarded r"
    by auto
  from imlFetch_cases[OF f] c(1,2) obtain x where "sent s' = sent s @ [x]" by auto
  with c(1) have "last calls = x" by auto
  with f rep \<open>sent s' = sent s @ [x]\<close> show ?thesis by blast
next
  case (GetMembers teamId)
  with h have "get_members w teamId s = (rep, s')" by simp
  from get_members_forward[OF this]
  obtain r where f: "imlFetch w (members_path teamId) ''GET'' JUndefined s = (r, s')"
    and rep: "rep = forwarded r"
    by auto
  from imlFetch_cases[OF f] c(1,2) obtain x where "sent s' = sent s @ [x]" by auto
  with c(1) have "last calls = x" by auto
  with f rep \<open>sent s' = sent s @ [x]\<close> show ?thesis by blast
next
  case (PostSaveScore gameId body)
  with h have p: "post_savescore w gameId body s = (rep, s')" by simp
  obtain u s1 where e: "ensure_logged_in w s = (u, s1)" by (cases "ensure_logged_in w s")
  from ensure_logged_in_cases[OF e]
  have s1: "sent s1 = sent s \<or> (\<exists>l. is_login_call l \<and> sent s1 = sent s @ [l])"
    by (auto simp: login_request_is_login)
  from post_savescore_forward[OF p e] show ?thesis
  proof
    assume "s' = s1"
    with s1 c show ?thesis by auto
  next
    assume "\<exists>pl r. imlFetch w ''v3/me/games/savescore'' ''POST'' pl s1 = (r, s') \<and>
              rep = forwarded r"
    then obtain pl r where f: "imlFetch w ''v3/me/games/savescore'' ''POST'' pl s1 = (r, s')"
      and rep: "rep = forwarded r" by blast
    from imlFetch_cases[OF f] have "s' = s1 \<or> (\<exists>x. sent s' = sent s1 @ [x])" by auto
    then show ?thesis
    proof
      assume "s' = s1"
      with s1 c show ?thesis by auto
    next
      assume "\<exists>x. sent s' = sent s1 @ [x]"
      then obtain x where x: "sent s' = sent s1 @ [x]" by blast
      with s1 c(1) have l: "last calls = x" by auto
      with f rep x show ?thesis by blast
    qed
  qed
qed

text \<open>
  C5 (as amended). Let a route handle a request, and let the last call it sent out be a
  forwarded call (not a login call) that the external API answered with a status outside
  200-299. Then the reply has status 500, whatever the external status was. When the
  body of the answer was read, as \<open>text\<close>, the reply is \<open>{ok: false, error: msg}\<close>, where
  \<open>msg\<close> is the message of line 93 for the path of that call: it contains the external
  status code and the raw body. When reading the body rejects (line 88), the reply is
  \<open>{ok: false, error: msg}\<close> where \<open>msg\<close> is the message of that rejection.
\<close>

theorem upstream_failure_is_500:
  assumes h: "handle w req s = (rep, s')"
    and c: "sent s' = sent s @ calls" "calls \<noteq> []" "\<not> is_login_call (last calls)"
    and a: "fetch w (last calls) = Inr res" "\<not> res_ok res"
  shows "r_status rep = 500 \<and>
         (\<forall>text. body_text res = Inr text \<longrightarrow>
            (\<exists>path. o_url (last calls) = fetch_url path \<and>
               rep = \<lparr>r_status = 500,
                       r_json = JObj [(''ok'', JBool False),
                                      (''error'', JStr (api_error_msg (status res) path text))]\<rparr> \<and>
               sublist (nat_to_string (status res)) (api_error_msg (status res) path text) \<and>
               sublist text (api_error_msg (status res) path text))) \<and>
         (\<forall>e. body_text res = Inl e \<longrightarrow>
            rep = \<lparr>r_status = 500,
                    r_json = JObj [(''ok'', JBool False), (''error'', JStr (error_text e))]\<rparr>)"
proof -
  from handle_last_forwarded[OF h c] obtain path m b s1 r x where
    f: "imlFetch w path m b s1 = (r, s')" and rep: "rep = forwarded r"
    and x: "sent s' = sent s1 @ [x]" and l: "last calls = x" by blast
  from a l have a': "fetch w (last [x]) = Inr res" by simp
  have t: "\<exists>path. o_url (last calls) = fetch_url path \<and>
               rep = \<lparr>r_status = 500,
                       r_json = JObj [(''ok'', JBool False),
                                      (''error'', JStr (api_error_msg (status res) path text))]\<rparr> \<and>
               sublist (nat_to_string (status res)) (api_error_msg (status res) path text) \<and>
               sublist text (api_error_msg (status res) path text)"
    if b: "body_text res = Inr text" for "text"
  proof -
    from forwarded_upstream_error[OF f rep x _ a' a(2) b] l
    have "o_url (last calls) = fetch_url path" "rep = fail 500 (api_error_msg (status res) path text)"
      by auto
    with api_error_msg_contains[of "status res" path "text"] show ?thesis
      by (auto simp: fail_def)
  qed
  have u: "rep = \<lparr>r_status = 500,
                    r_json = JObj [(''ok'', JBool False), (''error'', JStr (error_text e))]\<rparr>"
    if b: "body_text res = Inl e" for e
    using forwarded_upstream_unread[OF f rep x _ a' b] by (simp add: fail_def)
  have "r_status rep = 500"
  proof (cases "body_text res")
    case (Inl e)
    from u[OF this] show ?thesis by simp
  next
    case (Inr body)
    from t[OF this] show ?thesis by auto
  qed
  with t u show ?thesis by blast
qed

text \<open>
  The roster of team 5 is asked from an API that answers \<open>404 Not Found\<close>, and from one
  that answers 503 with a body that cannot be read.
\<close>

theorem upstream_failure_is_500_witness:
  "r_status (fst (handle w_refused (GetMembers ''5'') held_T1)) = 500 \<and>
   r_json (fst (handle w_refused (GetMembers ''5'') held_T1)) =
     JObj [(''ok'', JBool False),
           (''error'', JStr ''IMLeagues API error (404) on teams/5/members: Not Found'')] \<and>
   fst (handle w_cut (GetMembers ''5'') held_T1) =
     \<lparr>r_status = 500, r_json = JObj [(''ok'', JBool False), (''error'', JStr ''terminated'')]\<rparr>"
proof -
  let ?c = "\<lparr>o_url = ''https://api.imleagues.com/teams/5/members'', o_method = ''GET'',
             o_headers = [(''Authorization'', ''Bearer T1'')], o_body = None\<rparr>"
  let ?res = "\<lparr>status = 404, body_text = Inr ''Not Found''\<rparr>"
  let ?cut = "\<lparr>status = 503, body_text = Inl (JsError ''TypeError'' ''terminated'' None)\<rparr>"
  have h: "handle w_refused (GetMembers ''5'') held_T1 =
             (fst (handle w_refused (GetMembers ''5'') held_T1), held_T1\<lparr>sent := [?c]\<rparr>)"
    by (simp add: members_refused)
  have h': "handle w_cut (GetMembers ''5'') held_T1 =
             (fst (handle w_cut (GetMembers ''5'') held_T1), held_T1\<lparr>sent := [?c]\<rparr>)"
    by (simp add: members_cut)
  have c: "sent (held_T1\<lparr>sent := [?c]\<rparr>) = sent held_T1 @ [?c]" "[?c] \<noteq> []"
    "\<not> is_login_call (last [?c])"
    by (simp_all add: held_T1_def is_login_call_def IML_BASE_def)
  have a: "fetch w_refused (last [?c]) = Inr ?res" "\<not> res_ok ?res"
    by (simp_all add: sample_defs res_ok_def IML_BASE_def)
  have a': "fetch w_cut (last [?c]) = Inr ?cut" "\<not> res_ok ?cut"
    by (simp_all add: sample_defs w_cut_def res_ok_def IML_BASE_def)
  from upstream_failure_is_500[OF h c a]
  have 1: "r_status (fst (handle w_refused (GetMembers ''5'') held_T1)) = 500"
    by blast
  from upstream_failure_is_500[OF h' c a']
  have 2: "fst (handle w_cut (GetMembers ''5'') held_T1) =
     \<lparr>r_status = 500, r_json = JObj [(''ok'', JBool False), (''error'', JStr ''terminated'')]\<rparr>"
    by (simp add: error_text_def)
  from 1 2 show ?thesis by (simp add: members_refused fail_def)
qed

text \<open>
  As first stated, C5 says that the message contains the external status code and the
  raw body whenever the external status is a non-success one. The roster of team 5 is
  asked from an API that answers 503 and whose body cannot be read: \<open>res.text()\<close>
  (line 88) rejects before the status is looked at (line 92), and the reply carries the
  message of that rejection, \<open>terminated\<close>, which does not contain the status code.
\<close>

theorem upstream_failure_is_500_counterexample:
  "fetch w_cut (last (sent (snd (handle w_cut (GetMembers ''5'') held_T1)))) =
     Inr \<lparr>status = 503, body_text = Inl (JsError ''TypeError'' ''terminated'' None)\<rparr> \<and>
   \<not> is_login_call (last (sent (snd (handle w_cut (GetMembers ''5'') held_T1)))) \<and>
   \<not> res_ok \<lparr>status = 503, body_text = Inl (JsError ''TypeError'' ''terminated'' None)\<rparr> \<and>
   fst (handle w_cut (GetMembers ''5'') held_T1) =
     \<lparr>r_status = 500, r_json = JObj [(''ok'', JBool False), (''error'', JStr ''terminated'')]\<rparr> \<and>
   nat_to_string 503 = ''503'' \<and>
   \<not> sublist ''503'' ''terminated''"
  unfolding handle.simps members_cut
  by (simp add: fail_def sample_defs w_cut_def res_ok_def IML_BASE_def nat_to_string_503 terminated_lacks_503)

section \<open>C6: the bearer token after login\<close>

lemma handle_bears:
  assumes "req \<noteq> PostLogin" and t: "jwtTokenForSPA (auth s) = JStr t" "t \<noteq> []"
  shows "auth (snd (handle w req s)) = auth s \<and>
         (\<exists>calls. sent (snd (handle w req s)) = sent s @ calls \<and> (\<forall>c \<in> set calls. bears t c))"
proof (cases req)
  case PostLogin
  with assms show ?thesis by simp
next
  case (GetGames qstart qend)
  obtain rep s' where g: "get_games w qstart qend s = (rep, s')"
    by (cases "get_games w qstart qend s")
  from get_games_cases[OF g] g GetGames auth_headers_with_token[OF t, of w] show ?thesis
    by (auto simp: fetch_request_bears)
next
  case (GetMembers teamId)
  obtain rep s' where g: "get_members w teamId s = (rep, s')"
    by (cases "get_members w teamId s")
  from get_members_cases[OF g] g GetMembers auth_headers_with_token[OF t, of w] show ?thesis
    by (auto simp: fetch_request_bears)
next
  case (PostSaveScore gameId body)
  from t have e: "ensure_logged_in w s = (Inr (), s)"
    by (simp add: ensure_logged_in_def)
  from post_savescore_calls[OF e, of gameId body] PostSaveScore auth_headers_with_token[OF t, of w]
  show ?thesis by (auto simp: fetch_request_bears)
qed

lemma run_bears:
  assumes "\<forall>(w, r) \<in> set steps. r \<noteq> PostLogin" and "jwtTokenForSPA (auth s) = JStr t" and "t \<noteq> []"
  shows "auth (run steps s) = auth s \<and>
         (\<exists>calls. sent (run steps s) = sent s @ calls \<and> (\<forall>c \<in> set calls. bears t c))"
  using assms
proof (induction steps arbitrary: s)
  case Nil
  then show ?case by simp
next
  case (Cons x steps)
  obtain w r where x: "x = (w, r)" by (cases x)
  with Cons.prems have r: "r \<noteq> PostLogin" by simp
  from handle_bears[OF r Cons.prems(2,3), of w]
  obtain c1 where h: "auth (snd (handle w r s)) = auth s"
    "sent (snd (handle w r s)) = sent s @ c1" "\<forall>c \<in> set c1. bears t c" by blast
  from Cons.prems(1) have "\<forall>(w, r) \<in> set steps. r \<noteq> PostLogin" by simp
  from Cons.IH[OF this, of "snd (handle w r s)"] h(1) Cons.prems(2,3)
  obtain c2 where i: "auth (run steps (snd (handle w r s))) = auth s"
    "sent (run steps (snd (handle w r s))) = sent (snd (handle w r s)) @ c2" "\<forall>c \<in> set c2. bears t c"
    by auto
  from h i x show ?case
    by (auto intro!: exI[of _ "c1 @ c2"])
qed

lemma login_request_headers:
  "o_headers (login_request w email password) = [(''Content-Type'', ''application/json'')] \<and>
   \<not> has_authorization (login_request w email password)"
  by (simp add: login_request_def has_authorization_def)

text \<open>A call is a login call of the program when it is the request of lines 43-47.\<close>

lemma login_calls_append:
  assumes "sent s1 = sent s \<or> (\<exists>email password. sent s1 = sent s @ [login_request w email password])"
    and "sent s2 = sent s1 \<or> (\<exists>x. \<not> is_login_call x \<and> sent s2 = sent s1 @ [x])"
  shows "\<exists>calls. sent s2 = sent s @ calls \<and>
     (\<forall>c \<in> set calls. is_login_call c \<longrightarrow> (\<exists>email password. c = login_request w email password))"
proof -
  from assms(1) obtain c1 where 1: "sent s1 = sent s @ c1"
    "\<forall>c \<in> set c1. \<exists>email password. c = login_request w email password"
    by (elim disjE exE) (rule that[of "[]"], simp, simp, rule that, simp, auto)
  from assms(2) obtain c2 where 2: "sent s2 = sent s1 @ c2" "\<forall>c \<in> set c2. \<not> is_login_call c"
    by (elim disjE exE conjE) (rule that[of "[]"], simp, simp, rule that, simp, auto)
  from 1 2 have "sent s2 = sent s @ (c1 @ c2)" by simp
  moreover from 1 2
  have "\<forall>c \<in> set (c1 @ c2). is_login_call c \<longrightarrow> (\<exists>email password. c = login_request w email password)"
    by auto
  ultimately show ?thesis by blast
qed

lemma handle_login_calls:
  "\<exists>calls. sent (snd (handle w req s)) = sent s @ calls \<and>
     (\<forall>c \<in> set calls. is_login_call c \<longrightarrow> (\<exists>email password. c = login_request w email password))"
proof (cases req)
  case PostLogin
  obtain x s1 where l: "imlAdminLogin w s = (x, s1)" by (cases "imlAdminLogin w s")
  then have p: "snd (post_login w s) = s1" by (auto simp: post_login_def split: sum.splits)
  from imlAdminLogin_cases[OF l]
  have "sent s1 = sent s \<or> (\<exists>email password. sent s1 = sent s @ [login_request w email password])"
    by blast
  from login_calls_append[OF this, of s1] p PostLogin show ?thesis by simp
next
  case (GetGames qstart qend)
  obtain rep s' where g: "get_games w qstart qend s = (rep, s')"
    by (cases "get_games w qstart qend s")
  from get_games_cases[OF g]
  have "sent s' = sent s \<or> (\<exists>x. \<not> is_login_call x \<and> sent s' = sent s @ [x])"
    by (auto simp: games_request_not_login)
  from login_calls_append[of s s w s', OF _ this] g GetGames show ?thesis by simp
next
  case (GetMembers teamId)
  obtain rep s' where g: "get_members w teamId s = (rep, s')"
    by (cases "get_members w teamId s")
  from get_members_cases[OF g]
  have "sent s' = sent s \<or> (\<exists>x. \<not> is_login_call x \<and> sent s' = sent s @ [x])"
    by (auto simp: members_request_not_login)
  from login_calls_append[of s s w s', OF _ this] g GetMembers show ?thesis by simp
next
  case (PostSaveScore gameId body)
  obtain u s1 where e: "ensure_logged_in w s = (u, s1)" by (cases "ensure_logged_in w s")
  from ensure_logged_in_cases[OF e]
  have a: "sent s1 = sent s \<or> (\<exists>email password. sent s1 = sent s @ [login_request w email password])"
    by auto
  have b: "sent (snd (post_savescore w gameId body s)) = sent s1 \<or>
           (\<exists>x. \<not> is_login_call x \<and> sent (snd (post_savescore w gameId body s)) = sent s1 @ [x])"
  proof (cases u)
    case (Inl err)
    with e show ?thesis by (simp add: post_savescore_def)
  next
    case (Inr v)
    have n: "\<not> is_login_call (fetch_request w ''v3/me/games/savescore'' ''POST'' p ah)" for p ah
      using login_not_savescore savescore_request_is_savescore by blast
    from post_savescore_calls[OF e[unfolded Inr], of gameId body]
    show ?thesis by (auto simp: n)
  qed
  from login_calls_append[OF a b] PostSaveScore show ?thesis by simp
qed

text \<open>
  C6 (as amended). With the credentials configured and the login call answered with a
  success status and the object \<open>{jwtTokenForSPA: "T1"}\<close>, \<open>POST /api/iml/login\<close> replies
  \<open>{ok: true, jwtTokenIndexForSPA: null}\<close> and the token \<open>T1\<close> is held. From a state that
  holds \<open>T1\<close>, any sequence of games-listing, team-roster and score-submission requests
  keeps the session, and every call it sends out has the header
  \<open>Authorization: Bearer T1\<close>. When no session is held, \<open>imlAuthHeaders\<close> returns no
  header. A login call itself carries the header \<open>Content-Type: application/json\<close> and
  no other: whatever the request and the state, every login call the handler sends out
  has that header only, so no \<open>Authorization\<close> header and no bearer credential; and with
  the credentials configured, \<open>POST /api/iml/login\<close> sends out exactly the login call of
  lines 43-47, which has that header only.
\<close>

theorem login_then_bearer:
  "(mustEnv w ''IML_EMAIL'' = Inr email \<and> mustEnv w ''IML_PASSWORD'' = Inr password \<and>
    fetch w (login_request w email password) = Inr res \<and> res_ok res \<and>
    res_json_or_null w res = JObj [(''jwtTokenForSPA'', JStr ''T1'')] \<longrightarrow>
      fst (post_login w s) =
        \<lparr>r_status = 200, r_json = JObj [(''ok'', JBool True), (''jwtTokenIndexForSPA'', JNull)]\<rparr> \<and>
      jwtTokenForSPA (auth (snd (post_login w s))) = JStr ''T1'') \<and>
   ((\<forall>(w', r) \<in> set steps. r \<noteq> PostLogin) \<and> jwtTokenForSPA (auth s) = JStr ''T1'' \<longrightarrow>
      auth (run steps s) = auth s \<and>
      (\<exists>calls. sent (run steps s) = sent s @ calls \<and> (\<forall>c \<in> set calls. bears ''T1'' c))) \<and>
   (\<not> session_held s \<longrightarrow> imlAuthHeaders w s = Inr []) \<and>
   (\<exists>calls. sent (snd (handle w req s)) = sent s @ calls \<and>
      (\<forall>c \<in> set calls. is_login_call c \<longrightarrow>
         o_headers c = [(''Content-Type'', ''application/json'')] \<and> \<not> has_authorization c \<and>
         (\<forall>t. \<not> bears t c))) \<and>
   (mustEnv w ''IML_EMAIL'' = Inr email \<and> mustEnv w ''IML_PASSWORD'' = Inr password \<longrightarrow>
      sent (snd (post_login w s)) = sent s @ [login_request w email password] \<and>
      o_headers (login_request w email password) = [(''Content-Type'', ''application/json'')] \<and>
      \<not> has_authorization (login_request w email password))"
proof (intro conjI impI)
  assume h: "mustEnv w ''IML_EMAIL'' = Inr email \<and> mustEnv w ''IML_PASSWORD'' = Inr password \<and>
    fetch w (login_request w email password) = Inr res \<and> res_ok res \<and>
    res_json_or_null w res = JObj [(''jwtTokenForSPA'', JStr ''T1'')]"
  then show "fst (post_login w s) =
        \<lparr>r_status = 200, r_json = JObj [(''ok'', JBool True), (''jwtTokenIndexForSPA'', JNull)]\<rparr>"
    by (simp add: post_login_def imlAdminLogin_def Let_def opt_prop_def coalesce_def)
  from h show "jwtTokenForSPA (auth (snd (post_login w s))) = JStr ''T1''"
    by (simp add: post_login_def imlAdminLogin_def Let_def opt_prop_def coalesce_def)
next
  assume h: "(\<forall>(w', r) \<in> set steps. r \<noteq> PostLogin) \<and> jwtTokenForSPA (auth s) = JStr ''T1''"
  then have a: "\<forall>(w', r) \<in> set steps. r \<noteq> PostLogin" and b: "jwtTokenForSPA (auth s) = JStr ''T1''"
    by blast+
  have c: "''T1'' \<noteq> []" by simp
  from run_bears[OF a b c] show "auth (run steps s) = auth s" by blast
  from run_bears[OF a b c]
  show "\<exists>calls. sent (run steps s) = sent s @ calls \<and> (\<forall>c \<in> set calls. bears ''T1'' c)" by blast
next
  assume "\<not> session_held s"
  then show "imlAuthHeaders w s = Inr []" by (rule auth_headers_without_session)
next
  from handle_login_calls[of w req s] obtain calls where
    c: "sent (snd (handle w req s)) = sent s @ calls"
       "\<forall>c \<in> set calls. is_login_call c \<longrightarrow> (\<exists>email password. c = login_request w email password)"
    by blast
  have "\<forall>c \<in> set calls. is_login_call c \<longrightarrow>
         o_headers c = [(''Content-Type'', ''application/json'')] \<and> \<not> has_authorization c \<and>
         (\<forall>t. \<not> bears t c)"
  proof (intro ballI impI)
    fix c assume "c \<in> set calls" "is_login_call c"
    with c(2) obtain e p where "c = login_request w e p" by blast
    then show "o_headers c = [(''Content-Type'', ''application/json'')] \<and> \<not> has_authorization c \<and>
         (\<forall>t. \<not> bears t c)"
      by (simp add: login_request_def has_authorization_def bears_def)
  qed
  with c(1)
  show "\<exists>calls. sent (snd (handle w req s)) = sent s @ calls \<and>
      (\<forall>c \<in> set calls. is_login_call c \<longrightarrow>
         o_headers c = [(''Content-Type'', ''application/json'')] \<and> \<not> has_authorization c \<and>
         (\<forall>t. \<not> bears t c))" by blast
next
  assume h: "mustEnv w ''IML_EMAIL'' = Inr email \<and> mustEnv w ''IML_PASSWORD'' = Inr password"
  then show "sent (snd (post_login w s)) = sent s @ [login_request w email password]"
    by (simp add: post_login_def imlAdminLogin_def Let_def split: sum.splits)
  show "o_headers (login_request w email password) = [(''Content-Type'', ''application/json'')]"
    using login_request_headers by blast
  show "\<not> has_authorization (login_request w email password)"
    using login_request_headers by blast
qed

text \<open>
  Login from the initial state; then, holding \<open>T1\<close>, a roster request, a score
  submission and a games listing: the three calls carry \<open>Bearer T1\<close>. A login while
  \<open>T1\<close> is held sends a login call, with \<open>Content-Type\<close> only.
\<close>

theorem login_then_bearer_witness:
  "fst (post_login w_ok proc0) =
     \<lparr>r_status = 200, r_json = JObj [(''ok'', JBool True), (''jwtTokenIndexForSPA'', JNull)]\<rparr> \<and>
   jwtTokenForSPA (auth (snd (post_login w_ok proc0))) = JStr ''T1'' \<and>
   list_all (bears ''T1'') (sent (run sample_steps held_T1)) \<and>
   map o_headers (sent (run sample_steps held_T1)) =
     [[(''Authorization'', ''Bearer T1'')],
      [(''Content-Type'', ''application/json''), (''Authorization'', ''Bearer T1'')],
      [(''Authorization'', ''Bearer T1'')]] \<and>
   imlAuthHeaders w_ok proc0 = Inr [] \<and>
   sent (snd (post_login w_ok held_T1)) = [login_request w_ok ''admin@school.edu'' ''secret''] \<and>
   list_all (\<lambda>c. is_login_call c \<and> o_headers c = [(''Content-Type'', ''application/json'')] \<and>
                  \<not> has_authorization c \<and> \<not> bears ''T1'' c)
     (sent (snd (handle w_ok PostLogin held_T1)))"
proof -
  have e: "mustEnv w_ok ''IML_EMAIL'' = Inr ''admin@school.edu'' \<and>
           mustEnv w_ok ''IML_PASSWORD'' = Inr ''secret'' \<and>
           fetch w_ok (login_request w_ok ''admin@school.edu'' ''secret'') =
             Inr \<lparr>status = 200, body_text = Inr token_body\<rparr> \<and>
           res_ok \<lparr>status = 200, body_text = Inr token_body\<rparr> \<and>
           res_json_or_null w_ok \<lparr>status = 200, body_text = Inr token_body\<rparr> =
             JObj [(''jwtTokenForSPA'', JStr ''T1'')]"
    by (simp add: mustEnv_def sample_defs login_request_def res_ok_def res_json_or_null_def
        sample_parse_def)
  have n: "(\<forall>(w', r) \<in> set sample_steps. r \<noteq> PostLogin) \<and> jwtTokenForSPA (auth held_T1) = JStr ''T1''"
    by (simp add: sample_steps_def held_T1_def)
  have a: "\<not> session_held proc0"
    by (simp add: session_held_def proc0_def auth0_def)
  have s0: "sent held_T1 = []" by (simp add: held_T1_def)
  note t = login_then_bearer[of w_ok "''admin@school.edu''" "''secret''"
      "\<lparr>status = 200, body_text = Inr token_body\<rparr>" proc0 sample_steps PostLogin]
  note t' = login_then_bearer[of w_ok "''admin@school.edu''" "''secret''"
      "\<lparr>status = 200, body_text = Inr token_body\<rparr>" held_T1 sample_steps PostLogin]
  from t e have 1: "fst (post_login w_ok proc0) =
     \<lparr>r_status = 200, r_json = JObj [(''ok'', JBool True), (''jwtTokenIndexForSPA'', JNull)]\<rparr> \<and>
     jwtTokenForSPA (auth (snd (post_login w_ok proc0))) = JStr ''T1''" by blast
  from t' n s0
  have 2: "list_all (bears ''T1'') (sent (run sample_steps held_T1))"
    by (auto simp: list_all_iff)
  from t a have 3: "imlAuthHeaders w_ok proc0 = Inr []" by blast
  from t' e s0 have 4: "sent (snd (post_login w_ok held_T1)) = [login_request w_ok ''admin@school.edu'' ''secret'']"
    by simp
  from t' have "\<exists>calls. sent (snd (handle w_ok PostLogin held_T1)) = sent held_T1 @ calls \<and>
      (\<forall>c \<in> set calls. is_login_call c \<longrightarrow>
         o_headers c = [(''Content-Type'', ''application/json'')] \<and> \<not> has_authorization c \<and>
         (\<forall>t. \<not> bears t c))" by blast
  with s0 4 have 5: "list_all (\<lambda>c. is_login_call c \<and> o_headers c = [(''Content-Type'', ''application/json'')] \<and>
                  \<not> has_authorization c \<and> \<not> bears ''T1'' c)
     (sent (snd (handle w_ok PostLogin held_T1)))"
    by (simp add: login_request_is_login)
  from 1 2 3 4 5 sample_steps_headers show ?thesis by simp
qed

text \<open>
  As first stated, C6 says that every outbound call after the login attaches
  \<open>Authorization: Bearer T1\<close>. A second \<open>POST /api/iml/login\<close> sends a login call, and a
  login call (lines 43-47) has the \<open>Content-Type\<close> header only.
\<close>

theorem login_then_bearer_counterexample:
  "fst (post_login w_ok proc0) =
     \<lparr>r_status = 200, r_json = JObj [(''ok'', JBool True), (''jwtTokenIndexForSPA'', JNull)]\<rparr> \<and>
   jwtTokenForSPA (auth (snd (post_login w_ok proc0))) = JStr ''T1'' \<and>
   map o_headers (sent (run [(w_ok, PostLogin), (w_ok, PostLogin)] proc0)) =
     [[(''Content-Type'', ''application/json'')], [(''Content-Type'', ''application/json'')]] \<and>
   \<not> bears ''T1'' (sent (run [(w_ok, PostLogin), (w_ok, PostLogin)] proc0) ! 1)"
  unfolding login_twice login_ok_from_start
  by (simp add: held_T1_def login_request_def bears_def)

section \<open>C7: the contract of \<open>imlFetch\<close>\<close>

text \<open>
  What \<open>imlFetch\<close> does, once \<open>imlAuthHeaders\<close> has returned: it sends one request, to the
  address of the path and with the given method; the request has the header
  \<open>Content-Type: application/json\<close> if and only if the body is truthy, its body is then
  the serialised body, and its headers end with the authorization headers. On a success
  status, the result is the parsed text when the text parses to a value other than
  \<open>null\<close>, and the raw text when the text is empty or does not parse.
\<close>

theorem imlFetch_contract:
  assumes "imlAuthHeaders w s = Inr ah"
  shows "(\<exists>req. sent (snd (imlFetch w path m b s)) = sent s @ [req] \<and>
            o_url req = fetch_url path \<and> o_method req = m \<and>
            (has_json_content_type req \<longleftrightarrow> truthy b) \<and>
            o_body req = (if truthy b then JSON_stringify w b else None) \<and>
            o_headers req = (if truthy b then [(''Content-Type'', ''application/json'')] else []) @ ah \<and>
            (\<forall>res text. fetch w req = Inr res \<and> res_ok res \<and> body_text res = Inr text \<longrightarrow>
               (\<forall>v. text \<noteq> [] \<and> JSON_parse w text = Some v \<and> \<not> nullish v \<longrightarrow>
                    fst (imlFetch w path m b s) = Inr v) \<and>
               (text = [] \<or> JSON_parse w text = None \<longrightarrow>
                    fst (imlFetch w path m b s) = Inr (JStr text))))"
proof -
  let ?req = "fetch_request w path m b ah"
  have 1: "sent (snd (imlFetch w path m b s)) = sent s @ [?req]"
    using assms by (simp add: imlFetch_def Let_def split: sum.splits)
  have 2: "has_json_content_type ?req \<longleftrightarrow> truthy b"
    using auth_headers_no_content_type[OF assms]
    by (auto simp: has_json_content_type_def fetch_request_def)
  have 3: "\<forall>res text. fetch w ?req = Inr res \<and> res_ok res \<and> body_text res = Inr text \<longrightarrow>
               (\<forall>v. text \<noteq> [] \<and> JSON_parse w text = Some v \<and> \<not> nullish v \<longrightarrow>
                    fst (imlFetch w path m b s) = Inr v) \<and>
               (text = [] \<or> JSON_parse w text = None \<longrightarrow>
                    fst (imlFetch w path m b s) = Inr (JStr text))"
    using assms
    by (auto simp: imlFetch_def Let_def parse_or_null_def coalesce_def split: option.splits)
  from 1 2 3 show ?thesis
    by (intro exI[of _ ?req]) (simp add: fetch_request_def)
qed

text \<open>
  A \<open>GET\<close> answered \<open>200 []\<close> gives the empty array and has no \<open>Content-Type\<close>; a \<open>POST\<close> of
  \<open>{}\<close> has it, and the body \<open>{}\<close>.
\<close>

theorem imlFetch_contract_witness:
  "imlAuthHeaders w_ok held_T1 = Inr [(''Authorization'', ''Bearer T1'')] \<and>
   fst (imlFetch w_ok ''/teams/5/members'' ''GET'' JUndefined held_T1) = Inr (JArr []) \<and>
   list_all (\<lambda>c. \<not> has_json_content_type c \<and> o_body c = None)
     (sent (snd (imlFetch w_ok ''/teams/5/members'' ''GET'' JUndefined held_T1))) \<and>
   list_all (\<lambda>c. has_json_content_type c \<and> o_body c = Some ''{}'')
     (sent (snd (imlFetch w_ok ''v3/me/games/savescore'' ''POST'' (JObj []) held_T1))) \<and>
   map o_url (sent (snd (imlFetch w_ok ''/teams/5/members'' ''GET'' JUndefined held_T1))) =
     [''https://api.imleagues.com/teams/5/members'']"
proof -
  have ah: "imlAuthHeaders w_ok held_T1 = Inr [(''Authorization'', ''Bearer T1'')]"
    by (simp add: imlAuthHeaders_def held_T1_def)
  have e: "sent held_T1 = []"
    by (simp add: held_T1_def)
  from imlFetch_contract[OF ah, of "''/teams/5/members''" "''GET''" JUndefined] e
  have g: "list_all (\<lambda>c. \<not> has_json_content_type c \<and> o_body c = None)
     (sent (snd (imlFetch w_ok ''/teams/5/members'' ''GET'' JUndefined held_T1)))"
    by auto
  from imlFetch_contract[OF ah, of "''v3/me/games/savescore''" "''POST''" "JObj []"] e
  have p: "list_all (\<lambda>c. has_json_content_type c \<and> o_body c = Some ''{}'')
     (sent (snd (imlFetch w_ok ''v3/me/games/savescore'' ''POST'' (JObj []) held_T1)))"
    by (auto simp: JSON_stringify_def)
  have r: "fst (imlFetch w_ok ''/teams/5/members'' ''GET'' JUndefined held_T1) = Inr (JArr [])"
    by (simp add: eval_defs sample_defs)
  have u: "map o_url (sent (snd (imlFetch w_ok ''/teams/5/members'' ''GET'' JUndefined held_T1))) =
     [''https://api.imleagues.com/teams/5/members'']"
    by (simp add: eval_defs sample_defs)
  from ah g p r u show ?thesis by simp
qed

lemma imlFetch_parsed_null:
  assumes "imlAuthHeaders w s = Inr ah" "fetch w (fetch_request w path m b ah) = Inr res"
    "res_ok res" "body_text res = Inr text" "JSON_parse w text = Some JNull"
  shows "fst (imlFetch w path m b s) = Inr (JStr text)"
  using assms by (simp add: imlFetch_def Let_def parse_or_null_def coalesce_def)

text \<open>
  C7. The claim says that on a success status the result is the parsed JSON, the raw
  text being the fallback when parsing fails. The text \<open>null\<close> parses, to \<open>null\<close>; but line
  99 (\<open>json ?? text\<close>) cannot tell the parsed \<open>null\<close> from the \<open>null\<close> that stands for a
  failed parse, and returns the raw text: the string \<open>"null"\<close>.
\<close>

theorem null_body_returned_as_text:
  "JSON_parse w_null ''null'' = Some JNull \<and>
   fst (imlFetch w_null ''teams/5/members'' ''GET'' JUndefined held_T1) = Inr (JStr ''null'') \<and>
   fst (get_members w_null ''5'' held_T1) =
     \<lparr>r_status = 200, r_json = JObj [(''ok'', JBool True), (''data'', JStr ''null'')]\<rparr>"
  by (simp add: eval_defs sample_defs encode_defs)

section \<open>C8: the session is absent or present\<close>

text \<open>
  C8. In every state the process can reach, by any sequence of requests to the four
  routes in surroundings drawn from \<open>W\<close>, the session is either the initial record (no
  token, no secondary token, time 0) or it holds a truthy token together with the
  reading of the clock at a login. A login that succeeds replaces the whole record,
  whatever it was before: the credentials were configured, the login call was answered
  with a success status, and the new record is the token of the JSON of that answer,
  its secondary token or \<open>null\<close>, and the time of that login. And a login does succeed,
  with that record as its result, when the credentials are configured and the login call
  is answered with a success status and a JSON that has a truthy token.
\<close>

theorem session_invariant:
  "(s \<in> reachable W \<longrightarrow> session_inv W (auth s)) \<and>
   (\<forall>a s'. imlAdminLogin w s0 = (Inr a, s') \<longrightarrow>
      auth s' = a \<and> truthy (jwtTokenForSPA a) \<and> loggedInAt a = Date_now w \<and>
      (\<exists>email password res.
         mustEnv w ''IML_EMAIL'' = Inr email \<and> mustEnv w ''IML_PASSWORD'' = Inr password \<and>
         fetch w (login_request w email password) = Inr res \<and> res_ok res \<and>
         a = \<lparr>jwtTokenForSPA = get_prop (res_json_or_null w res) ''jwtTokenForSPA'',
              jwtTokenIndexForSPA =
                coalesce (get_prop (res_json_or_null w res) ''jwtTokenIndexForSPA'') JNull,
              loggedInAt = Date_now w\<rparr>)) \<and>
   (\<forall>email password res.
      mustEnv w ''IML_EMAIL'' = Inr email \<and> mustEnv w ''IML_PASSWORD'' = Inr password \<and>
      fetch w (login_request w email password) = Inr res \<and> res_ok res \<and>
      truthy (opt_prop (res_json_or_null w res) ''jwtTokenForSPA'') \<longrightarrow>
        fst (imlAdminLogin w s0) = Inr (auth (snd (imlAdminLogin w s0))) \<and>
        auth (snd (imlAdminLogin w s0)) =
          \<lparr>jwtTokenForSPA = get_prop (res_json_or_null w res) ''jwtTokenForSPA'',
           jwtTokenIndexForSPA =
             coalesce (get_prop (res_json_or_null w res) ''jwtTokenIndexForSPA'') JNull,
           loggedInAt = Date_now w\<rparr>)"
proof (intro conjI impI allI)
  assume "s \<in> reachable W"
  then show "session_inv W (auth s)"
  proof (induction rule: reachable.induct)
    case init
    show ?case by (simp add: session_inv_def proc0_def)
  next
    case (step s w r)
    from handle_auth[of w r s] step show ?case
      by (auto simp: session_inv_def)
  qed
next
  fix a s' assume l: "imlAdminLogin w s0 = (Inr a, s')"
  from login_replaces_session[OF l] show "auth s' = a" by blast
  from login_replaces_session[OF l] show "truthy (jwtTokenForSPA a)" by blast
  from login_replaces_session[OF l] show "loggedInAt a = Date_now w" by blast
  from login_replaces_session[OF l]
  show "\<exists>email password res.
         mustEnv w ''IML_EMAIL'' = Inr email \<and> mustEnv w ''IML_PASSWORD'' = Inr password \<and>
         fetch w (login_request w email password) = Inr res \<and> res_ok res \<and>
         a = \<lparr>jwtTokenForSPA = get_prop (res_json_or_null w res) ''jwtTokenForSPA'',
              jwtTokenIndexForSPA =
                coalesce (get_prop (res_json_or_null w res) ''jwtTokenIndexForSPA'') JNull,
              loggedInAt = Date_now w\<rparr>" by blast
next
  fix email password res
  assume h: "mustEnv w ''IML_EMAIL'' = Inr email \<and> mustEnv w ''IML_PASSWORD'' = Inr password \<and>
      fetch w (login_request w email password) = Inr res \<and> res_ok res \<and>
      truthy (opt_prop (res_json_or_null w res) ''jwtTokenForSPA'')"
  then have l: "imlAdminLogin w s0 =
           (Inr \<lparr>jwtTokenForSPA = get_prop (res_json_or_null w res) ''jwtTokenForSPA'',
                 jwtTokenIndexForSPA =
                   coalesce (get_prop (res_json_or_null w res) ''jwtTokenIndexForSPA'') JNull,
                 loggedInAt = Date_now w\<rparr>,
            s0\<lparr>logins := Suc (logins s0),
              sent := sent s0 @ [login_request w email password],
              auth := \<lparr>jwtTokenForSPA = get_prop (res_json_or_null w res) ''jwtTokenForSPA'',
                       jwtTokenIndexForSPA =
                         coalesce (get_prop (res_json_or_null w res) ''jwtTokenIndexForSPA'') JNull,
                       loggedInAt = Date_now w\<rparr>\<rparr>)"
    by (intro login_success) blast+
  show "fst (imlAdminLogin w s0) = Inr (auth (snd (imlAdminLogin w s0)))"
    unfolding l by simp
  show "auth (snd (imlAdminLogin w s0)) =
          \<lparr>jwtTokenForSPA = get_prop (res_json_or_null w res) ''jwtTokenForSPA'',
           jwtTokenIndexForSPA =
             coalesce (get_prop (res_json_or_null w res) ''jwtTokenIndexForSPA'') JNull,
           loggedInAt = Date_now w\<rparr>"
    unfolding l by simp
qed

text \<open>
  One login from the initial state: when it succeeds the session is \<open>T1\<close> with the time
  of the login, when it is refused the session is still the initial record. A login
  while the session of \<open>T0\<close> and \<open>I0\<close> is held: nothing of that session is left.
\<close>

theorem session_invariant_witness:
  "snd (handle w_ok PostLogin proc0) \<in> reachable {w_ok, w_refused} \<and>
   session_inv {w_ok, w_refused} (auth (snd (handle w_ok PostLogin proc0))) \<and>
   auth (snd (handle w_ok PostLogin proc0)) =
     \<lparr>jwtTokenForSPA = JStr ''T1'', jwtTokenIndexForSPA = JNull, loggedInAt = 1762128000000\<rparr> \<and>
   snd (handle w_refused PostLogin proc0) \<in> reachable {w_ok, w_refused} \<and>
   auth (snd (handle w_refused PostLogin proc0)) = auth0 \<and>
   auth (snd (imlAdminLogin w_ok held_T0)) =
     \<lparr>jwtTokenForSPA = JStr ''T1'', jwtTokenIndexForSPA = JNull, loggedInAt = 1762128000000\<rparr> \<and>
   fst (imlAdminLogin w_ok held_T0) =
     Inr \<lparr>jwtTokenForSPA = JStr ''T1'', jwtTokenIndexForSPA = JNull, loggedInAt = 1762128000000\<rparr>"
proof -
  let ?res = "\<lparr>status = 200, body_text = Inr token_body\<rparr>"
  have r1: "snd (handle w_ok PostLogin proc0) \<in> reachable {w_ok, w_refused}"
    by (rule reachable.step[OF reachable.init]) simp
  have r2: "snd (handle w_refused PostLogin proc0) \<in> reachable {w_ok, w_refused}"
    by (rule reachable.step[OF reachable.init]) simp
  note t = session_invariant[of "snd (handle w_ok PostLogin proc0)" "{w_ok, w_refused}" w_ok held_T0]
  from t r1
  have i: "session_inv {w_ok, w_refused} (auth (snd (handle w_ok PostLogin proc0)))" by blast
  have a1: "auth (snd (handle w_ok PostLogin proc0)) =
     \<lparr>jwtTokenForSPA = JStr ''T1'', jwtTokenIndexForSPA = JNull, loggedInAt = 1762128000000\<rparr>"
    by (simp add: login_ok_from_start held_T1_def)
  have a2: "auth (snd (handle w_refused PostLogin proc0)) = auth0"
    by (simp add: post_login_def imlAdminLogin_def mustEnv_def sample_defs login_request_def Let_def
      res_ok_def)
  have e: "mustEnv w_ok ''IML_EMAIL'' = Inr ''admin@school.edu'' \<and>
           mustEnv w_ok ''IML_PASSWORD'' = Inr ''secret'' \<and>
           fetch w_ok (login_request w_ok ''admin@school.edu'' ''secret'') = Inr ?res \<and>
           res_ok ?res \<and>
           truthy (opt_prop (res_json_or_null w_ok ?res) ''jwtTokenForSPA'')"
    by (simp add: mustEnv_def sample_defs login_request_def res_ok_def res_json_or_null_def
        sample_parse_def opt_prop_def)
  have d: "res_json_or_null w_ok ?res = JObj [(''jwtTokenForSPA'', JStr ''T1'')]" "Date_now w_ok = 1762128000000"
    by (simp_all add: sample_defs res_json_or_null_def sample_parse_def)
  from t e have "fst (imlAdminLogin w_ok held_T0) = Inr (auth (snd (imlAdminLogin w_ok held_T0))) \<and>
        auth (snd (imlAdminLogin w_ok held_T0)) =
          \<lparr>jwtTokenForSPA = get_prop (res_json_or_null w_ok ?res) ''jwtTokenForSPA'',
           jwtTokenIndexForSPA =
             coalesce (get_prop (res_json_or_null w_ok ?res) ''jwtTokenIndexForSPA'') JNull,
           loggedInAt = Date_now w_ok\<rparr>" by blast
  then have a3: "auth (snd (imlAdminLogin w_ok held_T0)) =
     \<lparr>jwtTokenForSPA = JStr ''T1'', jwtTokenIndexForSPA = JNull, loggedInAt = 1762128000000\<rparr>"
    "fst (imlAdminLogin w_ok held_T0) =
     Inr \<lparr>jwtTokenForSPA = JStr ''T1'', jwtTokenIndexForSPA = JNull, loggedInAt = 1762128000000\<rparr>"
    by (simp_all add: d coalesce_def)
  from r1 r2 i a1 a2 a3 show ?thesis by simp
qed

section \<open>C9: the listing routes and the session\<close>

text \<open>
  C9. The games-listing and team-roster handlers never call \<open>imlAdminLogin\<close> and leave
  the session as it was. They send at most one call, which is never a login call, and
  which carries no \<open>Authorization\<close> header when no session is held.
\<close>

theorem listing_routes_keep_session:
  assumes "req = GetGames qstart qend \<or> req = GetMembers teamId"
  shows "auth (snd (handle w req s)) = auth s \<and>
         logins (snd (handle w req s)) = logins s \<and>
         (\<exists>calls. sent (snd (handle w req s)) = sent s @ calls \<and> length calls \<le> 1 \<and>
            (\<forall>c \<in> set calls. \<not> is_login_call c \<and> (\<not> session_held s \<longrightarrow> \<not> has_authorization c)))"
proof -
  obtain rep s' where h: "handle w req s = (rep, s')" by (cases "handle w req s")
  from assms show ?thesis
  proof
    assume r: "req = GetGames qstart qend"
    with h have "get_games w qstart qend s = (rep, s')" by simp
    from get_games_cases[OF this] h show ?thesis
      by (auto simp: games_request_not_login auth_headers_without_session get_request_without_session)
  next
    assume r: "req = GetMembers teamId"
    with h have "get_members w teamId s = (rep, s')" by simp
    from get_members_cases[OF this] h show ?thesis
      by (auto simp: members_request_not_login auth_headers_without_session get_request_without_session)
  qed
qed

text \<open>
  Without a session, the roster of team 5 is fetched: the session and the count of
  logins are as before, and the one call that goes out is not a login call and has no
  header at all.
\<close>

theorem listing_routes_keep_session_witness:
  "\<not> session_held proc0 \<and>
   auth (snd (handle w_ok (GetMembers ''5'') proc0)) = auth proc0 \<and>
   logins (snd (handle w_ok (GetMembers ''5'') proc0)) = logins proc0 \<and>
   map o_url (sent (snd (handle w_ok (GetMembers ''5'') proc0))) =
     [''https://api.imleagues.com/teams/5/members''] \<and>
   map o_headers (sent (snd (handle w_ok (GetMembers ''5'') proc0))) = [[]] \<and>
   list_all (\<lambda>c. \<not> is_login_call c \<and> \<not> has_authorization c)
     (sent (snd (handle w_ok (GetMembers ''5'') proc0)))"
proof -
  have a: "\<not> session_held proc0"
    by (simp add: session_held_def proc0_def auth0_def)
  have e: "sent proc0 = []"
    by (simp add: proc0_def)
  from listing_routes_keep_session[of "GetMembers ''5''" JUndefined JUndefined "''5''" w_ok proc0] a e
  have b: "auth (snd (handle w_ok (GetMembers ''5'') proc0)) = auth proc0"
    and l: "logins (snd (handle w_ok (GetMembers ''5'') proc0)) = logins proc0"
    and c: "\<forall>c \<in> set (sent (snd (handle w_ok (GetMembers ''5'') proc0))).
              \<not> is_login_call c \<and> \<not> has_authorization c"
    by auto
  have u: "map o_url (sent (snd (handle w_ok (GetMembers ''5'') proc0))) =
     [''https://api.imleagues.com/teams/5/members'']"
    by (simp add: eval_defs sample_defs encode_defs)
  have h: "map o_headers (sent (snd (handle w_ok (GetMembers ''5'') proc0))) = [[]]"
    by (simp add: eval_defs sample_defs encode_defs)
  from a b l c u h show ?thesis by (simp add: list_all_iff)
qed

section \<open>C10: percent-encoding of the outbound URL\<close>

lemma hex_upper_digit: "d < 16 \<Longrightarrow> digit_of (hex_upper d) = Some d"
proof -
  have "list_all (\<lambda>d. digit_of (hex_upper d) = Some d) [0..<16]"
    by code_simp
  moreover assume "d < 16"
  ultimately show ?thesis by (simp add: list_all_iff)
qed

lemma hex_upper_not_reserved: "d < 16 \<Longrightarrow> \<not> uri_reserved (hex_upper d)"
proof -
  have "list_all (\<lambda>d. \<not> uri_reserved (hex_upper d)) [0..<16]"
    by code_simp
  moreover assume "d < 16"
  ultimately show ?thesis by (simp add: list_all_iff)
qed

lemma unreserved_not_reserved: "uri_unreserved c \<Longrightarrow> \<not> uri_reserved c"
  by (auto simp: uri_unreserved_def uri_reserved_def Let_def)

lemma unreserved_not_percent: "uri_unreserved c \<Longrightarrow> c \<noteq> CHR ''%''"
  by (auto simp: uri_unreserved_def Let_def)

lemma of_char_bound: "(of_char c :: nat) < 256"
  by (metis (no_types) of_char_mod_256 mod_less_divisor zero_less_numeral)

lemma of_char_high: "(of_char c :: nat) div 16 < 16"
proof -
  have "(of_char c :: nat) < 16 * 16" using of_char_bound[of c] by simp
  then show ?thesis by (rule less_mult_imp_div_less)
qed

lemma pct_not_reserved: "x \<in> set (pct c) \<Longrightarrow> \<not> uri_reserved x"
proof -
  have a: "(of_char c :: nat) div 16 < 16" by (rule of_char_high)
  have b: "(of_char c :: nat) mod 16 < 16" by simp
  have p: "\<not> uri_reserved (CHR ''%'')" by (simp add: uri_reserved_def)
  assume "x \<in> set (pct c)"
  with a b p show ?thesis by (auto simp: pct_def hex_upper_not_reserved)
qed

lemma encode_not_reserved: "x \<in> set (encodeURIComponent s) \<Longrightarrow> \<not> uri_reserved x"
  by (auto simp: encodeURIComponent_def unreserved_not_reserved pct_not_reserved split: if_splits)

lemma delimiters_encode: "delimiters (encodeURIComponent s) = []"
  by (simp add: delimiters_def filter_empty_conv encode_not_reserved)

lemma delimiters_append: "delimiters (a @ b) = delimiters a @ delimiters b"
  by (simp add: delimiters_def)

lemma pct_decode_plain: "c \<noteq> CHR ''%'' \<Longrightarrow> pct_decode (c # ys) = c # pct_decode ys"
  by (cases ys rule: pct_decode.cases) auto

lemma pct_decode_pct: "pct_decode (pct c @ ys) = c # pct_decode ys"
proof -
  have a: "(of_char c :: nat) div 16 < 16" by (rule of_char_high)
  have b: "(of_char c :: nat) mod 16 < 16" by simp
  have "char_of (16 * ((of_char c :: nat) div 16) + (of_char c :: nat) mod 16) = c"
    by simp
  with a b show ?thesis by (simp add: pct_def hex_upper_digit)
qed

lemma encode_Cons:
  "encodeURIComponent (c # s) = (if uri_unreserved c then [c] else pct c) @ encodeURIComponent s"
  by (simp add: encodeURIComponent_def)

lemma pct_decode_encode: "pct_decode (encodeURIComponent s) = s"
proof (induction s)
  case Nil
  show ?case by (simp add: encodeURIComponent_def)
next
  case (Cons c s)
  show ?case
  proof (cases "uri_unreserved c")
    case True
    then show ?thesis
      using Cons by (simp add: encode_Cons pct_decode_plain unreserved_not_percent)
  next
    case False
    then show ?thesis
      using Cons by (simp add: encode_Cons pct_decode_pct)
  qed
qed

lemma members_url:
  "o_url (fetch_request w (members_path teamId) m b ah) =
     IML_BASE @ ''teams/'' @ encodeURIComponent teamId @ ''/members''"
  by (simp add: fetch_request_def fetch_url_def members_path_def strip_slash_def)

lemma games_url:
  "o_url (fetch_request w (games_path networkId st en) m b ah) =
     IML_BASE @ ''networks/'' @ encodeURIComponent networkId @ ''/games?start=''
       @ encodeURIComponent st @ ''&end='' @ encodeURIComponent en"
  by (simp add: fetch_request_def fetch_url_def games_path_def strip_slash_def)

lemma filter_reserved_encode: "filter uri_reserved (encodeURIComponent s) = []"
  using delimiters_encode[of s] by (simp add: delimiters_def)

lemma members_delimiters:
  "delimiters (o_url (fetch_request w (members_path teamId) m b ah)) = ''://///''"
  by (simp add: members_url delimiters_def filter_reserved_encode uri_reserved_def IML_BASE_def)

lemma games_delimiters:
  "delimiters (o_url (fetch_request w (games_path networkId st en) m b ah)) = ''://///?=&=''"
  by (simp add: games_url delimiters_def filter_reserved_encode uri_reserved_def IML_BASE_def)

text \<open>
  C10. \<open>encodeURIComponent\<close> produces no character that delimits a part of a URL
  (\<open>; / ? : @ & = + $ , #\<close>), and decoding its result gives the input back. The team-roster
  call goes to \<open>teams/<teamId>/members\<close> and the games-listing call to
  \<open>networks/<networkId>/games?start=<start>&end=<end>\<close> under the base address, each
  value percent-encoded; so the delimiters of the URL handed to \<open>fetch\<close> are the same
  whatever the values are: no value adds a path segment or a query parameter.
\<close>

theorem outbound_url_percent_encoded:
  "(\<forall>c \<in> set (encodeURIComponent x). \<not> uri_reserved c) \<and>
   pct_decode (encodeURIComponent x) = x \<and>
   (\<exists>calls. sent (snd (get_members w teamId s)) = sent s @ calls \<and>
      (\<forall>c \<in> set calls.
         o_url c = IML_BASE @ ''teams/'' @ encodeURIComponent teamId @ ''/members'' \<and>
         delimiters (o_url c) = ''://///'')) \<and>
   (\<exists>calls. sent (snd (get_games w qstart qend s)) = sent s @ calls \<and>
      (\<forall>c \<in> set calls.
         \<exists>networkId st en.
           mustEnv w ''IML_NETWORK_ID'' = Inr networkId \<and>
           js_String (Number_toString w) qstart = Inr st \<and>
           js_String (Number_toString w) qend = Inr en \<and>
           o_url c = IML_BASE @ ''networks/'' @ encodeURIComponent networkId @ ''/games?start=''
                       @ encodeURIComponent st @ ''&end='' @ encodeURIComponent en \<and>
           delimiters (o_url c) = ''://///?=&=''))"
proof (intro conjI)
  show "\<forall>c \<in> set (encodeURIComponent x). \<not> uri_reserved c"
    by (simp add: encode_not_reserved)
  show "pct_decode (encodeURIComponent x) = x"
    by (rule pct_decode_encode)
  obtain rep s' where m: "get_members w teamId s = (rep, s')"
    by (cases "get_members w teamId s")
  from get_members_cases[OF m] show "\<exists>calls. sent (snd (get_members w teamId s)) = sent s @ calls \<and>
      (\<forall>c \<in> set calls.
         o_url c = IML_BASE @ ''teams/'' @ encodeURIComponent teamId @ ''/members'' \<and>
         delimiters (o_url c) = ''://///'')"
  proof
    assume "s' = s"
    with m show ?thesis by simp
  next
    assume "\<exists>ah. imlAuthHeaders w s = Inr ah \<and>
               s' = s\<lparr>sent := sent s @ [fetch_request w (members_path teamId) ''GET'' JUndefined ah]\<rparr>"
    then obtain ah where
      s': "s' = s\<lparr>sent := sent s @ [fetch_request w (members_path teamId) ''GET'' JUndefined ah]\<rparr>"
      by blast
    let ?c = "fetch_request w (members_path teamId) ''GET'' JUndefined ah"
    have "sent (snd (get_members w teamId s)) = sent s @ [?c]" using m s' by simp
    moreover have "o_url ?c = IML_BASE @ ''teams/'' @ encodeURIComponent teamId @ ''/members''"
      by (rule members_url)
    moreover have "delimiters (o_url ?c) = ''://///''" by (rule members_delimiters)
    ultimately show ?thesis by (intro exI[of _ "[?c]"]) simp
  qed
  obtain rep2 s2 where g: "get_games w qstart qend s = (rep2, s2)"
    by (cases "get_games w qstart qend s")
  from get_games_cases[OF g]
  show "\<exists>calls. sent (snd (get_games w qstart qend s)) = sent s @ calls \<and>
      (\<forall>c \<in> set calls.
         \<exists>networkId st en.
           mustEnv w ''IML_NETWORK_ID'' = Inr networkId \<and>
           js_String (Number_toString w) qstart = Inr st \<and>
           js_String (Number_toString w) qend = Inr en \<and>
           o_url c = IML_BASE @ ''networks/'' @ encodeURIComponent networkId @ ''/games?start=''
                       @ encodeURIComponent st @ ''&end='' @ encodeURIComponent en \<and>
           delimiters (o_url c) = ''://///?=&='')"
  proof
    assume "s2 = s"
    with g show ?thesis by simp
  next
    assume "\<exists>ah networkId st en.
               imlAuthHeaders w s = Inr ah \<and> mustEnv w ''IML_NETWORK_ID'' = Inr networkId \<and>
               js_String (Number_toString w) qstart = Inr st \<and>
               js_String (Number_toString w) qend = Inr en \<and>
               s2 = s\<lparr>sent := sent s @ [fetch_request w (games_path networkId st en) ''GET'' JUndefined ah]\<rparr>"
    then obtain ah networkId st en where
      h: "mustEnv w ''IML_NETWORK_ID'' = Inr networkId"
         "js_String (Number_toString w) qstart = Inr st"
         "js_String (Number_toString w) qend = Inr en"
         "s2 = s\<lparr>sent := sent s @ [fetch_request w (games_path networkId st en) ''GET'' JUndefined ah]\<rparr>"
      by blast
    let ?c = "fetch_request w (games_path networkId st en) ''GET'' JUndefined ah"
    have "sent (snd (get_games w qstart qend s)) = sent s @ [?c]" using g h(4) by simp
    moreover have "o_url ?c = IML_BASE @ ''networks/'' @ encodeURIComponent networkId @ ''/games?start=''
                       @ encodeURIComponent st @ ''&end='' @ encodeURIComponent en"
      by (rule games_url)
    moreover have "delimiters (o_url ?c) = ''://///?=&=''" by (rule games_delimiters)
    ultimately show ?thesis using h(1-3) by (intro exI[of _ "[?c]"]) simp
  qed
qed

text \<open>
  A team id and a start date made of delimiters, a network id with a slash, and an
  \<open>end\<close> parameter given twice (an array).
\<close>

theorem outbound_url_percent_encoded_witness:
  "map o_url (sent (snd (get_members w_ok ''5/../x?y=1#z'' held_T1))) =
     [''https://api.imleagues.com/teams/5%2F..%2Fx%3Fy%3D1%23z/members''] \<and>
   map (delimiters \<circ> o_url) (sent (snd (get_members w_ok ''5/../x?y=1#z'' held_T1))) = [''://///''] \<and>
   map o_url (sent (snd (get_games w_ok (JStr ''2024-01-01T00:00:00Z&admin=1'') (JArr [JStr ''a'', JStr ''b'']) held_T1))) =
     [''https://api.imleagues.com/networks/net%2F7/games?start=2024-01-01T00%3A00%3A00Z%26admin%3D1&end=a%2Cb''] \<and>
   map (delimiters \<circ> o_url) (sent (snd (get_games w_ok (JStr ''2024-01-01T00:00:00Z&admin=1'') (JArr [JStr ''a'', JStr ''b'']) held_T1))) =
     [''://///?=&='']"
proof -
  have e: "sent held_T1 = []" by (simp add: held_T1_def)
  from outbound_url_percent_encoded[of "''x''" w_ok "''5/../x?y=1#z''" held_T1
      "JStr ''2024-01-01T00:00:00Z&admin=1''" "JArr [JStr ''a'', JStr ''b'']"] e
  have d: "\<forall>c \<in> set (sent (snd (get_members w_ok ''5/../x?y=1#z'' held_T1))). delimiters (o_url c) = ''://///''"
    "\<forall>c \<in> set (sent (snd (get_games w_ok (JStr ''2024-01-01T00:00:00Z&admin=1'') (JArr [JStr ''a'', JStr ''b'']) held_T1))).
       delimiters (o_url c) = ''://///?=&=''"
    by auto
  obtain c1 where c1: "sent (snd (get_members w_ok ''5/../x?y=1#z'' held_T1)) = [c1]"
    using members_tricky by auto
  obtain c2 where c2: "sent (snd (get_games w_ok (JStr ''2024-01-01T00:00:00Z&admin=1'') (JArr [JStr ''a'', JStr ''b'']) held_T1)) = [c2]"
    using games_tricky by auto
  from d c1 c2 members_tricky games_tricky show ?thesis by simp
qed

end
